theory Spec2Isabelle
  imports Main "HOL-Library.Word" "HOL-Library.Signed_Division"
begin

unbundle bit_operations_syntax

section \<open>Data model\<close>

text \<open>
  The C sources work on fixed-width integers: \<^verbatim>\<open>u1\<close>, \<^verbatim>\<open>u2\<close>, \<^verbatim>\<open>u4\<close> (unsigned, 8, 16 and
  32 bits) and \<^verbatim>\<open>int32_t\<close>.  All of them are words; a signed reading goes through
  \<^const>\<open>sint\<close>.  Behaviour that C leaves undefined (an access outside an array, a signed
  overflow in \<^verbatim>\<open>+\<close>, \<^verbatim>\<open>-\<close>, \<^verbatim>\<open>*\<close>, \<^verbatim>\<open>/\<close>, a division by zero, a null pointer that is dereferenced, the use of a value that was never written) and a
  failed \<^verbatim>\<open>assert\<close> are results of their own: every function that can run into one returns
  \<open>fault + 'a\<close>.  Where C leaves the choice to the implementation, the model follows two's
  complement as gcc and clang document it: a conversion to a narrower signed type keeps the
  low bits, \<^verbatim>\<open>>>\<close> of a negative value copies the sign, \<^verbatim>\<open><<\<close> of a signed value shifts its
  bits.  Two more points follow the compiled program on the usual 64-bit targets: a shift
  takes the low five bits of its count, as the shift instruction does, and the null pointer
  compares below every address.  Allocation (\<^verbatim>\<open>malloc\<close>, \<^verbatim>\<open>calloc\<close>, \<^verbatim>\<open>realloc\<close>, an array
  of variable length) is taken to succeed.
\<close>

type_synonym u1 = "8 word"
type_synonym u2 = "16 word"
type_synonym u4 = "32 word"
type_synonym int32_t = "32 word"

datatype fault =
    OutOfFuel
  | AssertionFailed
  | NullPointer
  | CodeOutOfBounds
  | StackOutOfBounds
  | LocalsOutOfBounds
  | PoolOutOfBounds
  | HeapOutOfBounds
  | ArrayOutOfBounds
  | SignedOverflow
  | DivisionFault
  | IndeterminateValue

definition then_do :: "fault + 'a \<Rightarrow> ('a \<Rightarrow> fault + 'b) \<Rightarrow> fault + 'b" where
  "then_do r f = (case r of Inl e \<Rightarrow> Inl e | Inr x \<Rightarrow> f x)"

definition INT32_MAX :: int where
  "INT32_MAX = 2147483647"

definition INT32_MIN :: int where
  "INT32_MIN = - 2147483648"

text \<open>The result of a signed 32-bit operation of C: the mathematical value when it is
  representable, undefined otherwise.\<close>

definition int32_of :: "int \<Rightarrow> fault + int32_t" where
  "int32_of k = (if INT32_MIN \<le> k \<and> k \<le> INT32_MAX then Inr (word_of_int k) else Inl SignedOverflow)"

subsection \<open>heap.c\<close>

text \<open>
  \<^verbatim>\<open>heap_t\<close> holds a block of pointers \<^verbatim>\<open>ptr\<close> and their number \<^verbatim>\<open>count\<close>.  Every pointer
  stored in the block comes from an allocation of its own, so a pointer is identified with
  the array it points to: \<open>ptr\<close> is the list of the arrays.
\<close>

record heap_t =
  ptr :: "int32_t list list"
  count :: int32_t

definition heap_init :: heap_t where
  "heap_init = \<lparr>ptr = [], count = 0\<rparr>"

text \<open>
  \<^verbatim>\<open>heap_add\<close>: \<^verbatim>\<open>realloc\<close> resizes the block to \<^verbatim>\<open>count + 1\<close> pointers, keeping the first
  \<^verbatim>\<open>count\<close>; the new pointer is stored at index \<^verbatim>\<open>count\<close>; the old count is returned and the
  count incremented.  \<^verbatim>\<open>heap->count + 1\<close> is a signed addition.
\<close>

definition heap_add :: "heap_t \<Rightarrow> int32_t list \<Rightarrow> fault + (int32_t \<times> heap_t)" where
  "heap_add heap p =
     then_do (int32_of (sint (count heap) + 1)) (\<lambda>count1.
       if sint (count heap) < 0 \<or> length (ptr heap) < nat (sint (count heap))
       then Inl HeapOutOfBounds
       else let temp = count heap
            in Inr (temp, \<lparr>ptr = take (nat (sint (count heap))) (ptr heap) @ [p], count = count1\<rparr>))"

definition heap_get :: "heap_t \<Rightarrow> int32_t \<Rightarrow> fault + int32_t list" where
  "heap_get heap ref =
     (if 0 \<le> sint ref \<and> nat (sint ref) < length (ptr heap)
      then Inr (ptr heap ! nat (sint ref))
      else Inl HeapOutOfBounds)"

subsection \<open>read_class.c\<close>

text \<open>
  Modelled from the spec: the declarations of \<^verbatim>\<open>cp_info\<close>, \<^verbatim>\<open>code_t\<close>, \<^verbatim>\<open>method_t\<close> and
  \<^verbatim>\<open>class_file_t\<close> (\<^verbatim>\<open>read_class.h\<close>) are not among the sources.  The data model of the spec gives
  their content, and \<^verbatim>\<open>read_class.c\<close> and \<^verbatim>\<open>jvm.c\<close> the names and widths of the fields they
  use.  A constant of the pool is a tag and a payload selected by the tag; the datatype has
  one constructor for each tag that \<^verbatim>\<open>get_constant_pool\<close> accepts, with the payload that it
  reads.  The pool is the list of the constants before the terminating entry, and the method
  table the list of the methods before the terminating one.
\<close>

datatype cp_info =
    CONSTANT_Utf8 string
  | CONSTANT_Integer int32_t
  | CONSTANT_Class u2
  | CONSTANT_Fieldref u2 u2
  | CONSTANT_Methodref u2 u2
  | CONSTANT_NameAndType u2 u2

record code_t =
  max_stack :: u2
  max_locals :: u2
  code_length :: u4
  code :: "u1 list"

record method_t =
  name :: string
  descriptor :: string
  code :: code_t

record class_file_t =
  constant_pool :: "cp_info list"
  methods :: "method_t list"

text \<open>A C string ends at its first NUL byte.\<close>

definition c_str :: "string \<Rightarrow> string" where
  "c_str s = takeWhile (\<lambda>c. c \<noteq> CHR 0x00) s"

definition strcmp_eq :: "string \<Rightarrow> string \<Rightarrow> bool" where
  "strcmp_eq a b = (c_str a = c_str b)"

text \<open>\<^verbatim>\<open>strchr\<close>: the position of the first occurrence, \<open>None\<close> for the null pointer.\<close>

definition strchr :: "string \<Rightarrow> char \<Rightarrow> nat option" where
  "strchr s c =
     (if c \<in> set (c_str s) then Some (length (takeWhile (\<lambda>x. x \<noteq> c) (c_str s))) else None)"

definition constant_pool_size :: "cp_info list \<Rightarrow> u2" where
  "constant_pool_size pool = of_nat (length pool)"

definition get_constant :: "cp_info list \<Rightarrow> u2 \<Rightarrow> fault + cp_info" where
  "get_constant pool index =
     (if 0 < unat index \<and> unat index \<le> unat (constant_pool_size pool)
      then Inr (pool ! (unat index - 1))
      else Inl AssertionFailed)"

definition get_method_name_and_type :: "cp_info list \<Rightarrow> u2 \<Rightarrow> fault + (u2 \<times> u2)" where
  "get_method_name_and_type pool index =
     then_do (get_constant pool index) (\<lambda>method_constant.
       case method_constant of
         CONSTANT_Methodref class_index name_and_type_index \<Rightarrow>
           then_do (get_constant pool name_and_type_index) (\<lambda>name_and_type_constant.
             case name_and_type_constant of
               CONSTANT_NameAndType name_index descriptor_index \<Rightarrow>
                 Inr (name_index, descriptor_index)
             | _ \<Rightarrow> Inl AssertionFailed)
       | _ \<Rightarrow> Inl AssertionFailed)"

text \<open>
  The loop of \<^verbatim>\<open>get_number_of_parameters\<close>, on positions in the descriptor: \<open>start\<close> and
  \<open>end\<close> are the two pointers, \<open>params\<close> the \<^verbatim>\<open>u2\<close> counter.  In a descriptor with no
  \<^verbatim>\<open>)\<close>, \<open>end\<close> is the null pointer: \<^verbatim>\<open>start < end\<close> is false at once, nothing is read and
  the result is 0.  With a \<^verbatim>\<open>)\<close> but no \<^verbatim>\<open>(\<close> the loop body reads through the null pointer
  plus one.
\<close>

function params_loop :: "string \<Rightarrow> nat \<Rightarrow> nat \<Rightarrow> u2 \<Rightarrow> u2" where
  "params_loop d start end' params =
     (if start < end'
      then params_loop d ((if d ! start = CHR ''['' then start + 1 else start) + 1) end' (params + 1)
      else params)"
  by pat_completeness auto
termination
  by (relation "measure (\<lambda>(d, start, end', params). end' - start)") auto

definition get_number_of_parameters :: "method_t \<Rightarrow> fault + u2" where
  "get_number_of_parameters method =
     (case strchr (descriptor method) (CHR '')'') of
        None \<Rightarrow> Inr 0
      | Some end' \<Rightarrow>
          (case strchr (descriptor method) (CHR ''('') of
             None \<Rightarrow> Inl NullPointer
           | Some start \<Rightarrow> Inr (params_loop (c_str (descriptor method)) (start + 1) end' 0)))"

fun find_method_in :: "string \<Rightarrow> string \<Rightarrow> method_t list \<Rightarrow> method_t option" where
  "find_method_in n d [] = None"
| "find_method_in n d (method # rest) =
     (if strcmp_eq (name method) n \<and> strcmp_eq (descriptor method) d
      then Some method
      else find_method_in n d rest)"

definition find_method :: "string \<Rightarrow> string \<Rightarrow> class_file_t \<Rightarrow> method_t option" where
  "find_method n d class = find_method_in n d (methods class)"

definition find_method_from_index :: "u2 \<Rightarrow> class_file_t \<Rightarrow> fault + method_t option" where
  "find_method_from_index index class =
     then_do (get_method_name_and_type (constant_pool class) index) (\<lambda>(name_index, descriptor_index).
       then_do (get_constant (constant_pool class) name_index) (\<lambda>name_constant.
         case name_constant of
           CONSTANT_Utf8 n \<Rightarrow>
             then_do (get_constant (constant_pool class) descriptor_index) (\<lambda>descriptor_constant.
               case descriptor_constant of
                 CONSTANT_Utf8 d \<Rightarrow> Inr (find_method n d class)
               | _ \<Rightarrow> Inl AssertionFailed)
         | _ \<Rightarrow> Inl AssertionFailed))"

subsection \<open>jvm.c: frames, the operand stack, arithmetic\<close>

text \<open>
  Modelled from the spec: the enumeration of the opcodes (\<^verbatim>\<open>i_nop\<close>, \<^verbatim>\<open>i_bipush\<close>, ... of
  \<^verbatim>\<open>jvm.h\<close>) is not among the sources.  The spec's input is the standard class file, whose
  instruction encoding fixes the values below; \<^verbatim>\<open>jvm.c\<close> states five of them itself
  (\<^verbatim>\<open>OFFSET_ICONST\<close>, \<^verbatim>\<open>OFFSET_ILOAD\<close>, \<^verbatim>\<open>OFFSET_ALOAD\<close>, \<^verbatim>\<open>OFFSET_ASTORE\<close>,
  \<^verbatim>\<open>OFFSET_ISTORE\<close>: the opcodes of \<^verbatim>\<open>iconst_0\<close>, \<^verbatim>\<open>iload_0\<close>, \<^verbatim>\<open>aload_0\<close>, \<^verbatim>\<open>astore_0\<close>
  and \<^verbatim>\<open>istore_0\<close>).
\<close>

abbreviation i_nop :: u1 where "i_nop \<equiv> 0x00"
abbreviation i_iconst_m1 :: u1 where "i_iconst_m1 \<equiv> 0x02"
abbreviation i_iconst_0 :: u1 where "i_iconst_0 \<equiv> 0x03"
abbreviation i_iconst_1 :: u1 where "i_iconst_1 \<equiv> 0x04"
abbreviation i_iconst_2 :: u1 where "i_iconst_2 \<equiv> 0x05"
abbreviation i_iconst_3 :: u1 where "i_iconst_3 \<equiv> 0x06"
abbreviation i_iconst_4 :: u1 where "i_iconst_4 \<equiv> 0x07"
abbreviation i_iconst_5 :: u1 where "i_iconst_5 \<equiv> 0x08"
abbreviation i_bipush :: u1 where "i_bipush \<equiv> 0x10"
abbreviation i_sipush :: u1 where "i_sipush \<equiv> 0x11"
abbreviation i_ldc :: u1 where "i_ldc \<equiv> 0x12"
abbreviation i_iload :: u1 where "i_iload \<equiv> 0x15"
abbreviation i_aload :: u1 where "i_aload \<equiv> 0x19"
abbreviation i_iload_0 :: u1 where "i_iload_0 \<equiv> 0x1a"
abbreviation i_iload_1 :: u1 where "i_iload_1 \<equiv> 0x1b"
abbreviation i_iload_2 :: u1 where "i_iload_2 \<equiv> 0x1c"
abbreviation i_iload_3 :: u1 where "i_iload_3 \<equiv> 0x1d"
abbreviation i_aload_0 :: u1 where "i_aload_0 \<equiv> 0x2a"
abbreviation i_aload_1 :: u1 where "i_aload_1 \<equiv> 0x2b"
abbreviation i_aload_2 :: u1 where "i_aload_2 \<equiv> 0x2c"
abbreviation i_aload_3 :: u1 where "i_aload_3 \<equiv> 0x2d"
abbreviation i_iaload :: u1 where "i_iaload \<equiv> 0x2e"
abbreviation i_istore :: u1 where "i_istore \<equiv> 0x36"
abbreviation i_astore :: u1 where "i_astore \<equiv> 0x3a"
abbreviation i_istore_0 :: u1 where "i_istore_0 \<equiv> 0x3b"
abbreviation i_istore_1 :: u1 where "i_istore_1 \<equiv> 0x3c"
abbreviation i_istore_2 :: u1 where "i_istore_2 \<equiv> 0x3d"
abbreviation i_istore_3 :: u1 where "i_istore_3 \<equiv> 0x3e"
abbreviation i_astore_0 :: u1 where "i_astore_0 \<equiv> 0x4b"
abbreviation i_astore_1 :: u1 where "i_astore_1 \<equiv> 0x4c"
abbreviation i_astore_2 :: u1 where "i_astore_2 \<equiv> 0x4d"
abbreviation i_astore_3 :: u1 where "i_astore_3 \<equiv> 0x4e"
abbreviation i_iastore :: u1 where "i_iastore \<equiv> 0x4f"
abbreviation i_dup :: u1 where "i_dup \<equiv> 0x59"
abbreviation i_iadd :: u1 where "i_iadd \<equiv> 0x60"
abbreviation i_isub :: u1 where "i_isub \<equiv> 0x64"
abbreviation i_imul :: u1 where "i_imul \<equiv> 0x68"
abbreviation i_idiv :: u1 where "i_idiv \<equiv> 0x6c"
abbreviation i_irem :: u1 where "i_irem \<equiv> 0x70"
abbreviation i_ineg :: u1 where "i_ineg \<equiv> 0x74"
abbreviation i_ishl :: u1 where "i_ishl \<equiv> 0x78"
abbreviation i_ishr :: u1 where "i_ishr \<equiv> 0x7a"
abbreviation i_iushr :: u1 where "i_iushr \<equiv> 0x7c"
abbreviation i_iand :: u1 where "i_iand \<equiv> 0x7e"
abbreviation i_ior :: u1 where "i_ior \<equiv> 0x80"
abbreviation i_ixor :: u1 where "i_ixor \<equiv> 0x82"
abbreviation i_iinc :: u1 where "i_iinc \<equiv> 0x84"
abbreviation i_ifeq :: u1 where "i_ifeq \<equiv> 0x99"
abbreviation i_ifne :: u1 where "i_ifne \<equiv> 0x9a"
abbreviation i_iflt :: u1 where "i_iflt \<equiv> 0x9b"
abbreviation i_ifge :: u1 where "i_ifge \<equiv> 0x9c"
abbreviation i_ifgt :: u1 where "i_ifgt \<equiv> 0x9d"
abbreviation i_ifle :: u1 where "i_ifle \<equiv> 0x9e"
abbreviation i_if_icmpeq :: u1 where "i_if_icmpeq \<equiv> 0x9f"
abbreviation i_if_icmpne :: u1 where "i_if_icmpne \<equiv> 0xa0"
abbreviation i_if_icmplt :: u1 where "i_if_icmplt \<equiv> 0xa1"
abbreviation i_if_icmpge :: u1 where "i_if_icmpge \<equiv> 0xa2"
abbreviation i_if_icmpgt :: u1 where "i_if_icmpgt \<equiv> 0xa3"
abbreviation i_if_icmple :: u1 where "i_if_icmple \<equiv> 0xa4"
abbreviation i_goto :: u1 where "i_goto \<equiv> 0xa7"
abbreviation i_ireturn :: u1 where "i_ireturn \<equiv> 0xac"
abbreviation i_areturn :: u1 where "i_areturn \<equiv> 0xb0"
abbreviation i_return :: u1 where "i_return \<equiv> 0xb1"
abbreviation i_getstatic :: u1 where "i_getstatic \<equiv> 0xb2"
abbreviation i_invokevirtual :: u1 where "i_invokevirtual \<equiv> 0xb6"
abbreviation i_invokestatic :: u1 where "i_invokestatic \<equiv> 0xb8"
abbreviation i_newarray :: u1 where "i_newarray \<equiv> 0xbc"
abbreviation i_arraylength :: u1 where "i_arraylength \<equiv> 0xbe"

definition OFFSET_ICONST :: int where "OFFSET_ICONST = 0x03"
definition OFFSET_ILOAD :: int where "OFFSET_ILOAD = 0x1a"
definition OFFSET_ALOAD :: int where "OFFSET_ALOAD = 0x2a"
definition OFFSET_ASTORE :: int where "OFFSET_ASTORE = 0x4b"
definition OFFSET_ISTORE :: int where "OFFSET_ISTORE = 0x3b"

text \<open>
  The state of one activation of \<^verbatim>\<open>execute\<close>.  The operand stack is zeroed as a whole by
  \<^verbatim>\<open>memset(operand_stack, 0, sizeof(operand_stack))\<close>.  A local variable that nothing has
  written holds no determinate value: \<open>None\<close>.  What the interpreter shares between
  activations is the heap and the lines printed so far.
\<close>

record frame =
  operand_stack :: "int32_t list"
  stack_pointer :: int
  locals :: "int32_t option list"
  pc :: u4

record world =
  heap :: heap_t
  printed :: "int32_t list"

datatype outcome =
    Continue frame world
  | Returned "int32_t option" world

text \<open>\<^verbatim>\<open>operand_stack[++(*stack_pointer)] = value\<close> and \<^verbatim>\<open>operand_stack[(*stack_pointer)--]\<close>.\<close>

definition push :: "frame \<Rightarrow> int32_t \<Rightarrow> fault + frame" where
  "push fr v =
     (let sp = stack_pointer fr + 1
      in if 0 \<le> sp \<and> sp < int (length (operand_stack fr))
         then Inr (fr\<lparr>operand_stack := (operand_stack fr)[nat sp := v], stack_pointer := sp\<rparr>)
         else Inl StackOutOfBounds)"

definition pop :: "frame \<Rightarrow> fault + (int32_t \<times> frame)" where
  "pop fr =
     (let sp = stack_pointer fr
      in if 0 \<le> sp \<and> sp < int (length (operand_stack fr))
         then Inr (operand_stack fr ! nat sp, fr\<lparr>stack_pointer := sp - 1\<rparr>)
         else Inl StackOutOfBounds)"

definition bytecode :: "method_t \<Rightarrow> u4 \<Rightarrow> fault + u1" where
  "bytecode method i =
     (if unat i < length (code_t.code (code method))
      then Inr (code_t.code (code method) ! unat i)
      else Inl CodeOutOfBounds)"

definition get_local :: "frame \<Rightarrow> int \<Rightarrow> fault + int32_t" where
  "get_local fr i =
     (if 0 \<le> i \<and> i < int (length (locals fr))
      then (case locals fr ! nat i of None \<Rightarrow> Inl IndeterminateValue | Some v \<Rightarrow> Inr v)
      else Inl LocalsOutOfBounds)"

definition set_local :: "frame \<Rightarrow> int \<Rightarrow> int32_t \<Rightarrow> fault + frame" where
  "set_local fr i v =
     (if 0 \<le> i \<and> i < int (length (locals fr))
      then Inr (fr\<lparr>locals := (locals fr)[nat i := Some v]\<rparr>)
      else Inl LocalsOutOfBounds)"

text \<open>
  Shifts of \<^verbatim>\<open>int32_t\<close> and \<^verbatim>\<open>uint32_t\<close> values by an \<^verbatim>\<open>int32_t\<close> count.  The source passes
  the popped count to \<^verbatim>\<open><<\<close> and \<^verbatim>\<open>>>\<close> as it is; the 32-bit shift instruction that the
  compiler emits for them reads the low five bits of its count register.  On the value, \<^verbatim>\<open><<\<close>
  acts on the two's complement bits and \<^verbatim>\<open>>>\<close> of a signed value copies the sign.
\<close>

definition shift_count :: "int32_t \<Rightarrow> nat" where
  "shift_count amount = unat (amount AND 0x1F)"

definition shift_left :: "int32_t \<Rightarrow> int32_t \<Rightarrow> int32_t" where
  "shift_left v amount = push_bit (shift_count amount) v"

definition shift_right :: "int32_t \<Rightarrow> int32_t \<Rightarrow> int32_t" where
  "shift_right v amount = signed_drop_bit (shift_count amount) v"

definition shift_right_unsigned :: "int32_t \<Rightarrow> int32_t \<Rightarrow> int32_t" where
  "shift_right_unsigned v amount = drop_bit (shift_count amount) v"

definition perform_binary_operation :: "int32_t \<Rightarrow> int32_t \<Rightarrow> u1 \<Rightarrow> fault + int32_t" where
  "perform_binary_operation value1 value2 instruction =
     (if instruction = i_iadd then int32_of (sint value1 + sint value2)
      else if instruction = i_isub then int32_of (sint value1 - sint value2)
      else if instruction = i_imul then int32_of (sint value1 * sint value2)
      else if instruction = i_idiv then
        (if value2 = 0 then Inl DivisionFault else int32_of (sint value1 sdiv sint value2))
      else if instruction = i_irem then
        (if value2 = 0 then Inl DivisionFault
         else then_do (int32_of (sint value1 sdiv sint value2)) (\<lambda>q.
                int32_of (sint value1 smod sint value2)))
      else if instruction = i_iand then Inr (value1 AND value2)
      else if instruction = i_ior then Inr (value1 OR value2)
      else if instruction = i_ixor then Inr (value1 XOR value2)
      else Inr 0)"

text \<open>Two pops for the \<^verbatim>\<open>if_icmp\<close> family: \<^verbatim>\<open>value2\<close> is popped first.\<close>

definition pop2 :: "frame \<Rightarrow> fault + (int32_t \<times> int32_t \<times> frame)" where
  "pop2 fr = then_do (pop fr) (\<lambda>(value2, fr). then_do (pop fr) (\<lambda>(value1, fr). Inr (value1, value2, fr)))"

definition should_jump_based_on_instruction :: "u1 \<Rightarrow> frame \<Rightarrow> fault + (bool \<times> frame)" where
  "should_jump_based_on_instruction instruction fr =
     (if instruction = i_ifeq then then_do (pop fr) (\<lambda>(v, fr). Inr (v = 0, fr))
      else if instruction = i_ifne then then_do (pop fr) (\<lambda>(v, fr). Inr (v \<noteq> 0, fr))
      else if instruction = i_iflt then then_do (pop fr) (\<lambda>(v, fr). Inr (sint v < 0, fr))
      else if instruction = i_ifge then then_do (pop fr) (\<lambda>(v, fr). Inr (sint v \<ge> 0, fr))
      else if instruction = i_ifgt then then_do (pop fr) (\<lambda>(v, fr). Inr (sint v > 0, fr))
      else if instruction = i_ifle then then_do (pop fr) (\<lambda>(v, fr). Inr (sint v \<le> 0, fr))
      else if instruction = i_if_icmpeq then
        then_do (pop2 fr) (\<lambda>(value1, value2, fr). Inr (value1 = value2, fr))
      else if instruction = i_if_icmpne then
        then_do (pop2 fr) (\<lambda>(value1, value2, fr). Inr (value1 \<noteq> value2, fr))
      else if instruction = i_if_icmplt then
        then_do (pop2 fr) (\<lambda>(value1, value2, fr). Inr (sint value1 < sint value2, fr))
      else if instruction = i_if_icmpge then
        then_do (pop2 fr) (\<lambda>(value1, value2, fr). Inr (sint value1 \<ge> sint value2, fr))
      else if instruction = i_if_icmpgt then
        then_do (pop2 fr) (\<lambda>(value1, value2, fr). Inr (sint value1 > sint value2, fr))
      else if instruction = i_if_icmple then
        then_do (pop2 fr) (\<lambda>(value1, value2, fr). Inr (sint value1 \<le> sint value2, fr))
      else Inr (False, fr))"

subsection \<open>jvm.c: the arms of the switch\<close>

text \<open>
  One definition for each arm of the \<^verbatim>\<open>switch\<close> in \<^verbatim>\<open>execute\<close>, in the order of the source.
  An arm takes the frame at the fetched opcode and gives the frame after its \<^verbatim>\<open>break\<close>.
\<close>

definition case_i_bipush :: "method_t \<Rightarrow> frame \<Rightarrow> fault + frame" where
  "case_i_bipush method fr =
     then_do (bytecode method (pc fr + 1)) (\<lambda>b.
     then_do (push fr (scast b)) (\<lambda>fr.
     Inr (fr\<lparr>pc := pc fr + 2\<rparr>)))"

definition case_i_getstatic :: "frame \<Rightarrow> fault + frame" where
  "case_i_getstatic fr = Inr (fr\<lparr>pc := pc fr + 3\<rparr>)"

definition case_i_invokevirtual :: "frame \<Rightarrow> world \<Rightarrow> fault + (frame \<times> world)" where
  "case_i_invokevirtual fr w =
     then_do (pop fr) (\<lambda>(val, fr).
     Inr (fr\<lparr>pc := pc fr + 3\<rparr>, w\<lparr>printed := printed w @ [val]\<rparr>))"

definition case_i_iconst :: "u1 \<Rightarrow> frame \<Rightarrow> fault + frame" where
  "case_i_iconst instruction fr =
     then_do (push fr (word_of_int (uint instruction - OFFSET_ICONST))) (\<lambda>fr.
     Inr (fr\<lparr>pc := pc fr + 1\<rparr>))"

definition case_i_binary :: "u1 \<Rightarrow> frame \<Rightarrow> fault + frame" where
  "case_i_binary instruction fr =
     then_do (pop fr) (\<lambda>(value2, fr).
     then_do (pop fr) (\<lambda>(value1, fr).
     then_do (perform_binary_operation value1 value2 instruction) (\<lambda>result.
     then_do (push fr result) (\<lambda>fr.
     Inr (fr\<lparr>pc := pc fr + 1\<rparr>)))))"

text \<open>\<^verbatim>\<open>int16_t value = (bytecode[pc] << 8) | bytecode[pc + 1]\<close>, then widened to \<^verbatim>\<open>int32_t\<close>.\<close>

definition sipush_value :: "u1 \<Rightarrow> u1 \<Rightarrow> int32_t" where
  "sipush_value b1 b2 = scast (ucast (push_bit 8 (ucast b1 :: int32_t) OR ucast b2) :: 16 word)"

definition case_i_sipush :: "method_t \<Rightarrow> frame \<Rightarrow> fault + frame" where
  "case_i_sipush method fr =
     (let fr = fr\<lparr>pc := pc fr + 1\<rparr>
      in then_do (bytecode method (pc fr)) (\<lambda>b1.
         then_do (bytecode method (pc fr + 1)) (\<lambda>b2.
         then_do (push fr (sipush_value b1 b2)) (\<lambda>fr.
         Inr (fr\<lparr>pc := pc fr + 2\<rparr>)))))"

definition case_i_ineg :: "frame \<Rightarrow> fault + frame" where
  "case_i_ineg fr =
     then_do (pop fr) (\<lambda>(v, fr).
     then_do (int32_of (- sint v)) (\<lambda>r.
     then_do (push fr r) (\<lambda>fr.
     Inr (fr\<lparr>pc := pc fr + 1\<rparr>))))"

definition case_i_ishl :: "frame \<Rightarrow> fault + frame" where
  "case_i_ishl fr =
     then_do (pop fr) (\<lambda>(shift_amount, fr).
     then_do (pop fr) (\<lambda>(v, fr).
     then_do (push fr (shift_left v shift_amount)) (\<lambda>fr.
     Inr (fr\<lparr>pc := pc fr + 1\<rparr>))))"

definition case_i_ishr :: "frame \<Rightarrow> fault + frame" where
  "case_i_ishr fr =
     then_do (pop fr) (\<lambda>(shift_amount, fr).
     then_do (pop fr) (\<lambda>(v, fr).
     then_do (push fr (shift_right v shift_amount)) (\<lambda>fr.
     Inr (fr\<lparr>pc := pc fr + 1\<rparr>))))"

definition case_i_iushr :: "frame \<Rightarrow> fault + frame" where
  "case_i_iushr fr =
     then_do (pop fr) (\<lambda>(shift_amount, fr).
     then_do (pop fr) (\<lambda>(v, fr).
     then_do (push fr (shift_right_unsigned v shift_amount)) (\<lambda>fr.
     Inr (fr\<lparr>pc := pc fr + 1\<rparr>))))"

text \<open>\<^verbatim>\<open>iload\<close> and \<^verbatim>\<open>aload\<close>, \<^verbatim>\<open>istore\<close> and \<^verbatim>\<open>astore\<close> have the same bodies.\<close>

definition case_i_load :: "method_t \<Rightarrow> frame \<Rightarrow> fault + frame" where
  "case_i_load method fr =
     (let fr = fr\<lparr>pc := pc fr + 1\<rparr>
      in then_do (bytecode method (pc fr)) (\<lambda>index.
         then_do (get_local fr (uint index)) (\<lambda>v.
         then_do (push fr v) (\<lambda>fr.
         Inr (fr\<lparr>pc := pc fr + 1\<rparr>)))))"

definition case_i_store :: "method_t \<Rightarrow> frame \<Rightarrow> fault + frame" where
  "case_i_store method fr =
     (let fr = fr\<lparr>pc := pc fr + 1\<rparr>
      in then_do (bytecode method (pc fr)) (\<lambda>index.
         then_do (pop fr) (\<lambda>(v, fr).
         then_do (set_local fr (uint index) v) (\<lambda>fr.
         Inr (fr\<lparr>pc := pc fr + 1\<rparr>)))))"

definition case_i_iinc :: "method_t \<Rightarrow> frame \<Rightarrow> fault + frame" where
  "case_i_iinc method fr =
     (let fr = fr\<lparr>pc := pc fr + 1\<rparr>
      in then_do (bytecode method (pc fr)) (\<lambda>index.
         let fr = fr\<lparr>pc := pc fr + 1\<rparr>
         in then_do (bytecode method (pc fr)) (\<lambda>constant.
            then_do (get_local fr (uint index)) (\<lambda>v.
            then_do (int32_of (sint v + sint constant)) (\<lambda>r.
            then_do (set_local fr (uint index) r) (\<lambda>fr.
            Inr (fr\<lparr>pc := pc fr + 1\<rparr>)))))))"

text \<open>The families \<^verbatim>\<open>iload_<n>\<close>, \<^verbatim>\<open>aload_<n>\<close>, \<^verbatim>\<open>istore_<n>\<close>, \<^verbatim>\<open>astore_<n>\<close>: the index is
  the opcode minus the offset of the family.\<close>

definition case_i_load_n :: "int \<Rightarrow> u1 \<Rightarrow> frame \<Rightarrow> fault + frame" where
  "case_i_load_n offset instruction fr =
     then_do (get_local fr (uint instruction - offset)) (\<lambda>v.
     then_do (push fr v) (\<lambda>fr.
     Inr (fr\<lparr>pc := pc fr + 1\<rparr>)))"

definition case_i_store_n :: "int \<Rightarrow> u1 \<Rightarrow> frame \<Rightarrow> fault + frame" where
  "case_i_store_n offset instruction fr =
     then_do (pop fr) (\<lambda>(v, fr).
     then_do (set_local fr (uint instruction - offset) v) (\<lambda>fr.
     Inr (fr\<lparr>pc := pc fr + 1\<rparr>)))"

text \<open>\<^verbatim>\<open>class->constant_pool[index - 1]\<close>, read without \<^verbatim>\<open>get_constant\<close>.\<close>

definition pool_entry :: "class_file_t \<Rightarrow> u1 \<Rightarrow> fault + cp_info" where
  "pool_entry class index =
     (if 0 \<le> uint index - 1 \<and> uint index - 1 < int (length (constant_pool class))
      then Inr (constant_pool class ! nat (uint index - 1))
      else Inl PoolOutOfBounds)"

definition case_i_ldc :: "class_file_t \<Rightarrow> method_t \<Rightarrow> frame \<Rightarrow> fault + frame" where
  "case_i_ldc class method fr =
     (let fr = fr\<lparr>pc := pc fr + 1\<rparr>
      in then_do (bytecode method (pc fr)) (\<lambda>index.
         then_do (pool_entry class index) (\<lambda>constant.
         then_do (case constant of
                    CONSTANT_Integer bytes \<Rightarrow> push fr bytes
                  | _ \<Rightarrow> Inr fr) (\<lambda>fr.
         Inr (fr\<lparr>pc := pc fr + 1\<rparr>)))))"

text \<open>\<^verbatim>\<open>int16_t offset = (uint16_t)((bytecode[pc + 1] << 8) | bytecode[pc + 2])\<close>; added to the
  unsigned \<^verbatim>\<open>pc\<close> it is converted to \<^verbatim>\<open>u4\<close>.\<close>

definition branch_offset :: "u1 \<Rightarrow> u1 \<Rightarrow> u4" where
  "branch_offset b1 b2 = scast (ucast (push_bit 8 (ucast b1 :: int32_t) OR ucast b2) :: 16 word)"

definition case_i_if :: "method_t \<Rightarrow> u1 \<Rightarrow> frame \<Rightarrow> fault + frame" where
  "case_i_if method instruction fr =
     then_do (bytecode method (pc fr + 1)) (\<lambda>b1.
     then_do (bytecode method (pc fr + 2)) (\<lambda>b2.
     then_do (should_jump_based_on_instruction instruction fr) (\<lambda>(shouldJump, fr).
     Inr (fr\<lparr>pc := (if shouldJump then pc fr + branch_offset b1 b2 else pc fr + 3)\<rparr>))))"

definition case_i_goto :: "method_t \<Rightarrow> frame \<Rightarrow> fault + frame" where
  "case_i_goto method fr =
     then_do (bytecode method (pc fr + 1)) (\<lambda>b1.
     then_do (bytecode method (pc fr + 2)) (\<lambda>b2.
     Inr (fr\<lparr>pc := pc fr + branch_offset b1 b2\<rparr>)))"

definition case_i_ireturn :: "frame \<Rightarrow> fault + int32_t" where
  "case_i_ireturn fr =
     (let fr = fr\<lparr>pc := pc fr + 1\<rparr>
      in then_do (pop fr) (\<lambda>(ret_val, fr). Inr ret_val))"

definition case_i_nop :: "frame \<Rightarrow> fault + frame" where
  "case_i_nop fr = Inr (fr\<lparr>pc := pc fr + 1\<rparr>)"

definition case_i_dup :: "frame \<Rightarrow> fault + frame" where
  "case_i_dup fr =
     (if 0 \<le> stack_pointer fr \<and> stack_pointer fr < int (length (operand_stack fr))
      then then_do (push fr (operand_stack fr ! nat (stack_pointer fr))) (\<lambda>fr.
           Inr (fr\<lparr>pc := pc fr + 1\<rparr>))
      else Inl StackOutOfBounds)"

text \<open>
  \<^verbatim>\<open>newarray\<close>: one slot from \<^verbatim>\<open>malloc\<close> when \<^verbatim>\<open>count <= 0\<close>, otherwise \<^verbatim>\<open>count + 1\<close> zeroed
  slots from \<^verbatim>\<open>calloc\<close>; then \<^verbatim>\<open>new_array[0] = count\<close> and the loop that stores 0 at
  \<^verbatim>\<open>1 .. count\<close>.  \<^verbatim>\<open>count + 1\<close> is a signed addition.
\<close>

definition new_array_of :: "int32_t \<Rightarrow> fault + int32_t list" where
  "new_array_of n =
     then_do (int32_of (sint n + 1)) (\<lambda>count1.
       let new_array = (if sint n \<le> 0 then [n] else (replicate (nat (sint count1)) 0)[0 := n])
       in Inr (fold (\<lambda>i a. a[i := 0]) [1 ..< nat (sint count1)] new_array))"

definition case_i_newarray :: "frame \<Rightarrow> world \<Rightarrow> fault + (frame \<times> world)" where
  "case_i_newarray fr w =
     then_do (pop fr) (\<lambda>(n, fr).
     then_do (new_array_of n) (\<lambda>new_array.
     then_do (heap_add (heap w) new_array) (\<lambda>(ref, heap1).
     then_do (push fr ref) (\<lambda>fr.
     Inr (fr\<lparr>pc := pc fr + 2\<rparr>, w\<lparr>heap := heap1\<rparr>)))))"

text \<open>\<^verbatim>\<open>array[i]\<close> for an array of the heap and an \<^verbatim>\<open>int\<close> position.\<close>

definition array_get :: "int32_t list \<Rightarrow> int \<Rightarrow> fault + int32_t" where
  "array_get array i =
     (if 0 \<le> i \<and> i < int (length array) then Inr (array ! nat i) else Inl ArrayOutOfBounds)"

definition array_set :: "int32_t list \<Rightarrow> int \<Rightarrow> int32_t \<Rightarrow> fault + int32_t list" where
  "array_set array i v =
     (if 0 \<le> i \<and> i < int (length array) then Inr (array[nat i := v]) else Inl ArrayOutOfBounds)"

definition case_i_arraylength :: "frame \<Rightarrow> world \<Rightarrow> fault + frame" where
  "case_i_arraylength fr w =
     then_do (pop fr) (\<lambda>(ref, fr).
     then_do (heap_get (heap w) ref) (\<lambda>array.
     then_do (array_get array 0) (\<lambda>n.
     then_do (push fr n) (\<lambda>fr.
     Inr (fr\<lparr>pc := pc fr + 1\<rparr>)))))"

definition case_i_iastore :: "frame \<Rightarrow> world \<Rightarrow> fault + (frame \<times> world)" where
  "case_i_iastore fr w =
     then_do (pop fr) (\<lambda>(v, fr).
     then_do (pop fr) (\<lambda>(index, fr).
     then_do (pop fr) (\<lambda>(ref, fr).
     then_do (heap_get (heap w) ref) (\<lambda>array.
     then_do (int32_of (sint index + 1)) (\<lambda>index1.
     then_do (array_set array (sint index1) v) (\<lambda>array1.
     Inr (fr\<lparr>pc := pc fr + 1\<rparr>,
          w\<lparr>heap := (heap w)\<lparr>ptr := (ptr (heap w))[nat (sint ref) := array1]\<rparr>\<rparr>)))))))"

definition case_i_iaload :: "frame \<Rightarrow> world \<Rightarrow> fault + frame" where
  "case_i_iaload fr w =
     then_do (pop fr) (\<lambda>(index, fr).
     then_do (pop fr) (\<lambda>(ref, fr).
     then_do (heap_get (heap w) ref) (\<lambda>array.
     then_do (int32_of (sint index + 1)) (\<lambda>index1.
     then_do (array_get array (sint index1)) (\<lambda>v.
     then_do (push fr v) (\<lambda>fr.
     Inr (fr\<lparr>pc := pc fr + 1\<rparr>)))))))"

subsection \<open>jvm.c: invokestatic and the loop of execute\<close>

text \<open>
  \<^verbatim>\<open>memset(a, 0, n)\<close> on an array of \<^verbatim>\<open>int32_t\<close>: it zeroes the first \<open>n\<close> bytes, \<open>n\<close> within the
  array.  An element is four bytes; an element whose bytes are all among the first \<open>n\<close>
  becomes 0, an element the call does not reach keeps what it held, and an element that is
  covered in part is left without a determinate value.
\<close>

definition memset_zero :: "int32_t option list \<Rightarrow> nat \<Rightarrow> int32_t option list" where
  "memset_zero a n =
     map (\<lambda>(i, x). if 4 * (i + 1) \<le> n then Some 0 else if 4 * i < n then None else x)
       (enumerate 0 a)"

text \<open>The operand stack and the program counter that \<^verbatim>\<open>execute\<close> sets up on entry.\<close>

definition new_frame :: "method_t \<Rightarrow> int32_t option list \<Rightarrow> frame" where
  "new_frame method ls =
     \<lparr>operand_stack = replicate (unat (max_stack (code method))) 0,
      stack_pointer = - 1, locals = ls, pc = 0\<rparr>"

text \<open>\<^verbatim>\<open>for (int i = num_params - 1; i >= 0; i--) method_locals[i] = pop(...)\<close>; the first
  argument is \<open>i + 1\<close>.\<close>

primrec pop_arguments ::
  "nat \<Rightarrow> frame \<Rightarrow> int32_t option list \<Rightarrow> fault + (frame \<times> int32_t option list)" where
  "pop_arguments 0 fr method_locals = Inr (fr, method_locals)"
| "pop_arguments (Suc i) fr method_locals =
     then_do (pop fr) (\<lambda>(v, fr).
       if i < length method_locals
       then pop_arguments i fr (method_locals[i := Some v])
       else Inl LocalsOutOfBounds)"

text \<open>The \<^verbatim>\<open>invokestatic\<close> arm up to the recursive call: the callee, its locals, and the
  caller's frame after the arguments are popped.\<close>

definition invoke_setup ::
  "class_file_t \<Rightarrow> method_t \<Rightarrow> frame \<Rightarrow> fault + (method_t \<times> int32_t option list \<times> frame)" where
  "invoke_setup class method fr =
     (let fr = fr\<lparr>pc := pc fr + 1\<rparr>
      in then_do (bytecode method (pc fr)) (\<lambda>b1.
         then_do (bytecode method (pc fr + 1)) (\<lambda>b2.
         then_do (find_method_from_index (push_bit 8 (ucast b1) OR ucast b2) class) (\<lambda>found.
           case found of
             None \<Rightarrow> Inl NullPointer
           | Some called_method \<Rightarrow>
               then_do (get_number_of_parameters called_method) (\<lambda>num_params.
                 let size = unat (max_locals (code called_method));
                     method_locals = memset_zero (replicate size None) size
                 in then_do (pop_arguments (unat num_params) fr method_locals) (\<lambda>(fr, method_locals).
                    Inr (called_method, method_locals, fr)))))))"

text \<open>The rest of the arm: the returned value, if there is one, is pushed, and \<^verbatim>\<open>pc += 2\<close>.\<close>

definition invoke_result :: "frame \<Rightarrow> int32_t option \<Rightarrow> fault + frame" where
  "invoke_result fr result =
     then_do (case result of Some v \<Rightarrow> push fr v | None \<Rightarrow> Inr fr) (\<lambda>fr.
     Inr (fr\<lparr>pc := pc fr + 2\<rparr>))"

definition continue :: "world \<Rightarrow> fault + frame \<Rightarrow> fault + outcome" where
  "continue w r = then_do r (\<lambda>fr. Inr (Continue fr w))"

definition continue_world :: "fault + (frame \<times> world) \<Rightarrow> fault + outcome" where
  "continue_world r = then_do r (\<lambda>(fr, w). Inr (Continue fr w))"

text \<open>
  The \<^verbatim>\<open>switch\<close> on the fetched opcode, for every arm but \<^verbatim>\<open>invokestatic\<close> (which calls
  \<^verbatim>\<open>execute\<close> and is part of the recursion below).  The \<^verbatim>\<open>switch\<close> has no \<^verbatim>\<open>default\<close>: an
  opcode that no label lists leaves \<^verbatim>\<open>switch\<close> with nothing done.
\<close>

definition step :: "class_file_t \<Rightarrow> method_t \<Rightarrow> u1 \<Rightarrow> frame \<Rightarrow> world \<Rightarrow> fault + outcome" where
  "step class method instruction fr w =
     (if instruction = i_bipush then continue w (case_i_bipush method fr)
      else if instruction = i_getstatic then continue w (case_i_getstatic fr)
      else if instruction = i_invokevirtual then continue_world (case_i_invokevirtual fr w)
      else if instruction \<in> {i_iconst_m1, i_iconst_0, i_iconst_1, i_iconst_2, i_iconst_3,
                              i_iconst_4, i_iconst_5}
        then continue w (case_i_iconst instruction fr)
      else if instruction \<in> {i_iadd, i_isub, i_imul, i_idiv, i_irem, i_iand, i_ior, i_ixor}
        then continue w (case_i_binary instruction fr)
      else if instruction = i_sipush then continue w (case_i_sipush method fr)
      else if instruction = i_ineg then continue w (case_i_ineg fr)
      else if instruction = i_ishl then continue w (case_i_ishl fr)
      else if instruction = i_ishr then continue w (case_i_ishr fr)
      else if instruction = i_iushr then continue w (case_i_iushr fr)
      else if instruction = i_iload then continue w (case_i_load method fr)
      else if instruction = i_istore then continue w (case_i_store method fr)
      else if instruction = i_iinc then continue w (case_i_iinc method fr)
      else if instruction \<in> {i_iload_0, i_iload_1, i_iload_2, i_iload_3}
        then continue w (case_i_load_n OFFSET_ILOAD instruction fr)
      else if instruction \<in> {i_istore_0, i_istore_1, i_istore_2, i_istore_3}
        then continue w (case_i_store_n OFFSET_ISTORE instruction fr)
      else if instruction = i_ldc then continue w (case_i_ldc class method fr)
      else if instruction \<in> {i_ifeq, i_ifne, i_iflt, i_ifge, i_ifgt, i_ifle, i_if_icmpeq,
                              i_if_icmpne, i_if_icmplt, i_if_icmpge, i_if_icmpgt, i_if_icmple}
        then continue w (case_i_if method instruction fr)
      else if instruction = i_goto then continue w (case_i_goto method fr)
      else if instruction = i_ireturn
        then then_do (case_i_ireturn fr) (\<lambda>ret_val. Inr (Returned (Some ret_val) w))
      else if instruction = i_nop then continue w (case_i_nop fr)
      else if instruction = i_dup then continue w (case_i_dup fr)
      else if instruction = i_newarray then continue_world (case_i_newarray fr w)
      else if instruction = i_arraylength then continue w (case_i_arraylength fr w)
      else if instruction = i_areturn
        then then_do (case_i_ireturn fr) (\<lambda>ret_val. Inr (Returned (Some ret_val) w))
      else if instruction = i_iastore then continue_world (case_i_iastore fr w)
      else if instruction = i_iaload then continue w (case_i_iaload fr w)
      else if instruction = i_aload then continue w (case_i_load method fr)
      else if instruction = i_astore then continue w (case_i_store method fr)
      else if instruction \<in> {i_aload_0, i_aload_1, i_aload_2, i_aload_3}
        then continue w (case_i_load_n OFFSET_ALOAD instruction fr)
      else if instruction \<in> {i_astore_0, i_astore_1, i_astore_2, i_astore_3}
        then continue w (case_i_store_n OFFSET_ASTORE instruction fr)
      else if instruction = i_return then Inr (Returned None w)
      else Inr (Continue fr w))"

text \<open>The opcodes that a \<^verbatim>\<open>case\<close> label of the \<^verbatim>\<open>switch\<close> lists.\<close>

definition case_labels :: "u1 set" where
  "case_labels =
     {i_bipush, i_getstatic, i_invokevirtual,
      i_iconst_m1, i_iconst_0, i_iconst_1, i_iconst_2, i_iconst_3, i_iconst_4, i_iconst_5,
      i_iadd, i_isub, i_imul, i_idiv, i_irem, i_iand, i_ior, i_ixor,
      i_sipush, i_ineg, i_ishl, i_ishr, i_iushr, i_iload, i_istore, i_iinc,
      i_iload_0, i_iload_1, i_iload_2, i_iload_3,
      i_istore_0, i_istore_1, i_istore_2, i_istore_3, i_ldc,
      i_ifeq, i_ifne, i_iflt, i_ifge, i_ifgt, i_ifle,
      i_if_icmpeq, i_if_icmpne, i_if_icmplt, i_if_icmpge, i_if_icmpgt, i_if_icmple,
      i_goto, i_ireturn, i_invokestatic, i_nop, i_dup, i_newarray, i_arraylength, i_areturn,
      i_iastore, i_iaload, i_aload, i_astore,
      i_aload_0, i_aload_1, i_aload_2, i_aload_3,
      i_astore_0, i_astore_1, i_astore_2, i_astore_3, i_return}"

text \<open>
  \<^verbatim>\<open>execute\<close>.  The \<^verbatim>\<open>while\<close> loop may run for ever and \<^verbatim>\<open>invokestatic\<close> calls \<^verbatim>\<open>execute\<close>
  again, so the model counts fuel: \<open>execute_from n\<close> runs the loop from a frame with \<open>n\<close> units
  of fuel.  An iteration takes one unit, an activation started by \<^verbatim>\<open>invokestatic\<close> runs on
  what is left, and \<open>Inl OutOfFuel\<close> says that the fuel was used up before the method
  returned.  \<open>execute_step\<close> is one iteration: fetch and \<^verbatim>\<open>switch\<close>.  Falling off the end of
  the code returns void.
\<close>

fun execute_from ::
    "nat \<Rightarrow> class_file_t \<Rightarrow> method_t \<Rightarrow> frame \<Rightarrow> world \<Rightarrow> fault + (int32_t option \<times> world)"
  and execute_step ::
    "nat \<Rightarrow> class_file_t \<Rightarrow> method_t \<Rightarrow> frame \<Rightarrow> world \<Rightarrow> fault + outcome"
where
  "execute_from 0 class method fr w = Inl OutOfFuel"
| "execute_from (Suc n) class method fr w =
     (if pc fr < code_length (code method)
      then (case execute_step n class method fr w of
              Inl e \<Rightarrow> Inl e
            | Inr (Continue fr1 w1) \<Rightarrow> execute_from n class method fr1 w1
            | Inr (Returned result w1) \<Rightarrow> Inr (result, w1))
      else Inr (None, w))"
| "execute_step n class method fr w =
     (case bytecode method (pc fr) of
        Inl e \<Rightarrow> Inl e
      | Inr instruction \<Rightarrow>
          if instruction = i_invokestatic
          then (case invoke_setup class method fr of
                  Inl e \<Rightarrow> Inl e
                | Inr (called_method, method_locals, fr1) \<Rightarrow>
                    (case execute_from n class called_method
                            (new_frame called_method method_locals) w of
                       Inl e \<Rightarrow> Inl e
                     | Inr (result, w1) \<Rightarrow>
                         (case invoke_result fr1 result of
                            Inl e \<Rightarrow> Inl e
                          | Inr fr2 \<Rightarrow> Inr (Continue fr2 w1))))
          else step class method instruction fr w)"

definition execute ::
  "nat \<Rightarrow> method_t \<Rightarrow> int32_t option list \<Rightarrow> class_file_t \<Rightarrow> world \<Rightarrow> fault + (int32_t option \<times> world)" where
  "execute n method ls class w = execute_from n class method (new_frame method ls) w"

text \<open>
  \<^verbatim>\<open>main\<close>, after the class is loaded: the entry method is looked up, its locals are zeroed by
  \<^verbatim>\<open>memset(locals, 0, sizeof(locals))\<close> (four bytes for each local), and it is executed on an
  empty heap; it must return void.  The result is what was printed.
\<close>

definition MAIN_METHOD :: string where
  "MAIN_METHOD = ''main''"

definition MAIN_DESCRIPTOR :: string where
  "MAIN_DESCRIPTOR = ''([Ljava/lang/String;)V''"

definition jvm_main :: "nat \<Rightarrow> class_file_t \<Rightarrow> fault + int32_t list" where
  "jvm_main n class =
     (case find_method MAIN_METHOD MAIN_DESCRIPTOR class of
        None \<Rightarrow> Inl AssertionFailed
      | Some main_method \<Rightarrow>
          let size = unat (max_locals (code main_method));
              ls = memset_zero (replicate size None) (4 * size)
          in then_do (execute n main_method ls class \<lparr>heap = heap_init, printed = []\<rparr>) (\<lambda>(result, w).
               case result of
                 Some v \<Rightarrow> Inl AssertionFailed
               | None \<Rightarrow> Inr (printed w)))"

section \<open>Notions used to state the properties\<close>

text \<open>Successive calls of \<^verbatim>\<open>heap_add\<close>, with the references they return.\<close>

fun heap_add_all :: "heap_t \<Rightarrow> int32_t list list \<Rightarrow> fault + (int32_t list \<times> heap_t)" where
  "heap_add_all h [] = Inr ([], h)"
| "heap_add_all h (p # ps) =
     then_do (heap_add h p) (\<lambda>(ref, heap1).
     then_do (heap_add_all heap1 ps) (\<lambda>(refs, heap2).
     Inr (ref # refs, heap2)))"

text \<open>
  A method descriptor \<^verbatim>\<open>(<params>)<ret>\<close> built from its parameter tokens.  A component
  character is any character of a C string but the two that the parser looks for.  A
  parameter token in general is a component character behind any number of \<^verbatim>\<open>[\<close>; a token
  with at most one \<^verbatim>\<open>[\<close> is called flat here.
\<close>

definition descriptor_of :: "string list \<Rightarrow> string \<Rightarrow> string" where
  "descriptor_of toks ret = ''('' @ concat toks @ '')'' @ ret"

definition component :: "char \<Rightarrow> bool" where
  "component c = (c \<noteq> CHR ''['' \<and> c \<noteq> CHR '')'' \<and> c \<noteq> CHR 0x00)"

definition parameter_token :: "string \<Rightarrow> bool" where
  "parameter_token t =
     (t \<noteq> [] \<and> component (last t) \<and> list_all (\<lambda>x. x = CHR ''['') (butlast t))"

definition flat_token :: "string \<Rightarrow> bool" where
  "flat_token t = (parameter_token t \<and> length t \<le> 2)"

text \<open>A method with the descriptor \<open>d\<close>, for examples; the parser reads nothing else of it.\<close>

definition probe :: "string \<Rightarrow> method_t" where
  "probe d = \<lparr>name = ''f'', descriptor = d,
     code = \<lparr>max_stack = 0, max_locals = 1, code_length = 1, code = [i_return]\<rparr>\<rparr>"

text \<open>A method with the code \<open>c\<close>, an operand stack of \<open>ms\<close> slots and \<open>ml\<close> local variables; a
  class with nothing in it; the world at the start of a run.  They are for examples.\<close>

definition code_only :: "nat \<Rightarrow> nat \<Rightarrow> u1 list \<Rightarrow> method_t" where
  "code_only ms ml c =
     \<lparr>name = ''f'', descriptor = ''()V'',
      code = \<lparr>max_stack = of_nat ms, max_locals = of_nat ml,
              code_length = of_nat (length c), code = c\<rparr>\<rparr>"

definition empty_class :: class_file_t where
  "empty_class = \<lparr>constant_pool = [], methods = []\<rparr>"

definition empty_world :: world where
  "empty_world = \<lparr>heap = heap_init, printed = []\<rparr>"

text \<open>A static method given by its name, descriptor, stack and locals sizes and code, and a
  class whose only method it is: the constant pool holds a \<^verbatim>\<open>Methodref\<close> to it at index 1.\<close>

definition static_method :: "string \<Rightarrow> string \<Rightarrow> nat \<Rightarrow> nat \<Rightarrow> u1 list \<Rightarrow> method_t" where
  "static_method n d ms ml c =
     \<lparr>name = n, descriptor = d,
      code = \<lparr>max_stack = of_nat ms, max_locals = of_nat ml,
              code_length = of_nat (length c), code = c\<rparr>\<rparr>"

definition class_of_method :: "method_t \<Rightarrow> class_file_t" where
  "class_of_method m =
     \<lparr>constant_pool = [CONSTANT_Methodref 0 2, CONSTANT_NameAndType 3 4,
                       CONSTANT_Utf8 (name m), CONSTANT_Utf8 (descriptor m)],
      methods = [m]\<rparr>"

section \<open>Basic facts\<close>

lemma then_do_Inr [simp]: "then_do (Inr x) f = f x"
  by (simp add: then_do_def)

lemma then_do_Inl [simp]: "then_do (Inl e) f = Inl e"
  by (simp add: then_do_def)

section \<open>The heap: references are handed out in order and stay valid\<close>

lemma int32_of_in_range:
  "INT32_MIN \<le> k \<Longrightarrow> k \<le> INT32_MAX \<Longrightarrow> int32_of k = Inr (word_of_int k)"
  by (simp add: int32_of_def)

lemma sint_int32:
  "INT32_MIN \<le> k \<Longrightarrow> k \<le> INT32_MAX \<Longrightarrow> sint (word_of_int k :: int32_t) = k"
  by (simp add: INT32_MIN_def INT32_MAX_def sint_sbintrunc' signed_take_bit_int_eq_self_iff)

lemma word_of_sint32: "word_of_int (sint w) = (w :: int32_t)"
  by simp

lemma int32_of_nat:
  "sint (w :: int32_t) = int n \<Longrightarrow> w = of_nat n"
  by (metis word_of_sint32 of_int_of_nat_eq)

lemma sint_of_nat_int32:
  "int n \<le> INT32_MAX \<Longrightarrow> sint (of_nat n :: int32_t) = int n"
  using sint_int32 [of "int n"] by (simp add: INT32_MIN_def)

lemma heap_add_wf:
  assumes "sint (count h) = int (length (ptr h))" and "int (length (ptr h)) < INT32_MAX"
  shows "heap_add h p = Inr (count h, \<lparr>ptr = ptr h @ [p], count = count h + 1\<rparr>)"
proof -
  have "int32_of (sint (count h) + 1) = Inr (word_of_int (sint (count h) + 1))"
    using assms by (intro int32_of_in_range) (simp_all add: INT32_MIN_def INT32_MAX_def)
  moreover have "(word_of_int (sint (count h) + 1) :: int32_t) = count h + 1"
    by simp
  ultimately show ?thesis
    using assms by (simp add: heap_add_def)
qed

lemma heap_add_all_wf:
  assumes "sint (count h) = int (length (ptr h))"
    and "int (length (ptr h)) + int (length ps) \<le> INT32_MAX"
  shows "heap_add_all h ps =
    Inr (map of_nat [length (ptr h) ..< length (ptr h) + length ps],
         \<lparr>ptr = ptr h @ ps, count = of_nat (length (ptr h) + length ps)\<rparr>)"
  using assms
proof (induction ps arbitrary: h)
  case Nil
  have "count h = of_nat (length (ptr h))"
    using Nil.prems(1) by (rule int32_of_nat)
  then show ?case by simp
next
  case (Cons p ps)
  let ?h = "\<lparr>ptr = ptr h @ [p], count = count h + 1\<rparr>"
  have lt: "int (length (ptr h)) < INT32_MAX"
    using Cons.prems(2) by simp
  have add: "heap_add h p = Inr (count h, ?h)"
    using Cons.prems(1) lt by (rule heap_add_wf)
  have c: "count h = of_nat (length (ptr h))"
    using Cons.prems(1) by (rule int32_of_nat)
  have "sint (count h + 1) = int (length (ptr h) + 1)"
    using lt sint_of_nat_int32 [of "length (ptr h) + 1"] by (simp add: c add.commute)
  then have wf: "sint (count ?h) = int (length (ptr ?h))"
    by simp
  have room: "int (length (ptr ?h)) + int (length ps) \<le> INT32_MAX"
    using Cons.prems(2) by simp
  have ih: "heap_add_all ?h ps =
      Inr (map of_nat [length (ptr ?h) ..< length (ptr ?h) + length ps],
           \<lparr>ptr = ptr ?h @ ps, count = of_nat (length (ptr ?h) + length ps)\<rparr>)"
    by (rule Cons.IH [OF wf room])
  have ups: "[length (ptr h) ..< length (ptr h) + length (p # ps)] =
      length (ptr h) # [length (ptr ?h) ..< length (ptr ?h) + length ps]"
    by (simp add: upt_conv_Cons del: upt_Suc)
  have "heap_add_all h (p # ps) =
      Inr (count h # map of_nat [length (ptr ?h) ..< length (ptr ?h) + length ps],
           \<lparr>ptr = ptr ?h @ ps, count = of_nat (length (ptr ?h) + length ps)\<rparr>)"
    by (simp only: heap_add_all.simps add then_do_Inr prod.case ih)
  then show ?case
    unfolding ups by (simp add: c)
qed

text \<open>
  Claim C9.  Starting from the empty heap of \<^verbatim>\<open>heap_init\<close>, successive calls of \<^verbatim>\<open>heap_add\<close>
  (one for each array \<open>ps ! r\<close>, as \<^verbatim>\<open>newarray\<close> makes them) return the references
  \<open>0, 1, 2, ...\<close> in this order, a strictly increasing sequence; afterwards \<^verbatim>\<open>heap_get\<close> of
  the reference \<open>r\<close> is still the array stored by the call that returned \<open>r\<close>; and on the
  heap reached, \<^verbatim>\<open>heap_add\<close> returns the current count and increments it.  The count is an
  \<^verbatim>\<open>int32_t\<close>: the statement is for the runs whose number of allocations it can hold.
\<close>

theorem heap_references_monotone:
  assumes "int (length ps) \<le> INT32_MAX"
  shows "\<exists>h. heap_add_all heap_init ps = Inr (map of_nat [0 ..< length ps], h)
           \<and> sint (count h) = int (length ps)
           \<and> (\<forall>r < length ps. sint (of_nat r :: int32_t) = int r
                              \<and> heap_get h (of_nat r) = Inr (ps ! r))
           \<and> (int (length ps) < INT32_MAX \<longrightarrow>
                (\<forall>p. heap_add h p = Inr (count h, \<lparr>ptr = ptr h @ [p], count = count h + 1\<rparr>)))"
proof -
  let ?h = "\<lparr>ptr = ps, count = of_nat (length ps) :: int32_t\<rparr>"
  have run: "heap_add_all heap_init ps = Inr (map of_nat [0 ..< length ps], ?h)"
    using heap_add_all_wf [of heap_init ps] assms by (simp add: heap_init_def)
  have cnt: "sint (count ?h) = int (length ps)"
    using assms by (simp add: sint_of_nat_int32)
  have refs: "sint (of_nat r :: int32_t) = int r \<and> heap_get ?h (of_nat r) = Inr (ps ! r)"
    if "r < length ps" for r
  proof -
    have "sint (of_nat r :: int32_t) = int r"
      using that assms by (intro sint_of_nat_int32) simp
    then show ?thesis
      using that by (simp add: heap_get_def)
  qed
  have add: "heap_add ?h p = Inr (count ?h, \<lparr>ptr = ptr ?h @ [p], count = count ?h + 1\<rparr>)"
    if "int (length ps) < INT32_MAX" for p
    using cnt that by (intro heap_add_wf) simp_all
  show ?thesis
    using run cnt refs add by blast
qed

theorem heap_references_monotone_witness:
  "\<exists>h. heap_add_all heap_init [[2, 0, 0], [0], [1, 7]] = Inr ([0, 1, 2], h)
     \<and> heap_get h 0 = Inr [2, 0, 0] \<and> heap_get h 1 = Inr [0] \<and> heap_get h 2 = Inr [1, 7]
     \<and> heap_add h [5] = Inr (3, \<lparr>ptr = ptr h @ [[5]], count = 4\<rparr>)"
proof -
  let ?ps = "[[2, 0, 0], [0], [1, 7 :: int32_t]]"
  have len: "int (length ?ps) \<le> INT32_MAX"
    by (simp add: INT32_MAX_def)
  from heap_references_monotone [OF len]
  obtain h where h: "heap_add_all heap_init ?ps = Inr (map of_nat [0 ..< length ?ps], h)"
    and c: "sint (count h) = int (length ?ps)"
    and g: "\<forall>r < length ?ps. sint (of_nat r :: int32_t) = int r
                \<and> heap_get h (of_nat r) = Inr (?ps ! r)"
    and a: "int (length ?ps) < INT32_MAX \<longrightarrow>
              (\<forall>p. heap_add h p = Inr (count h, \<lparr>ptr = ptr h @ [p], count = count h + 1\<rparr>))"
    by blast
  have "count h = 3"
    using c int32_of_nat [of "count h" 3] by simp
  moreover have "map of_nat [0 ..< length ?ps] = [0, 1, 2 :: int32_t]"
    by (simp add: upt_rec)
  moreover have "heap_get h 0 = Inr [2, 0, 0]" "heap_get h 1 = Inr [0]" "heap_get h 2 = Inr [1, 7]"
    using g [rule_format, of 0] g [rule_format, of 1] g [rule_format, of 2] by simp_all
  moreover have "heap_add h [5] = Inr (count h, \<lparr>ptr = ptr h @ [[5]], count = count h + 1\<rparr>)"
    using a by (simp add: INT32_MAX_def)
  ultimately show ?thesis
    using h by (intro exI [of _ h]) simp
qed

section \<open>Counting the parameters of a descriptor\<close>


lemma flat_token_cases:
  assumes "flat_token t"
  obtains c where "t = [c]" "component c"
        | c where "t = [CHR ''['', c]" "component c"
proof (cases t)
  case Nil
  with assms show ?thesis by (simp add: flat_token_def parameter_token_def)
next
  case (Cons a u)
  show ?thesis
  proof (cases u)
    case Nil
    with Cons assms that(1) show ?thesis
      by (simp add: flat_token_def parameter_token_def)
  next
    case (Cons b v)
    from assms \<open>t = a # u\<close> Cons have v: "v = []"
      by (simp add: flat_token_def)
    from assms \<open>t = a # u\<close> Cons v have "a = CHR ''[''" "component b"
      by (simp_all add: flat_token_def parameter_token_def)
    with Cons \<open>t = a # u\<close> v that(2) show ?thesis by simp
  qed
qed

lemma params_loop_flat_tokens:
  assumes "\<forall>t \<in> set toks. flat_token t"
  shows "params_loop (pre @ concat toks @ post) (length pre) (length pre + length (concat toks)) p
           = p + of_nat (length toks)"
  using assms
proof (induction toks arbitrary: pre p)
  case Nil
  show ?case by (subst params_loop.simps) simp
next
  case (Cons t toks)
  from Cons.prems have flat: "flat_token t" and rest: "\<forall>t \<in> set toks. flat_token t"
    by simp_all
  from flat show ?case
  proof (cases rule: flat_token_cases)
    case (1 c)
    have "params_loop ((pre @ [c]) @ concat toks @ post) (length (pre @ [c]))
            (length (pre @ [c]) + length (concat toks)) (p + 1) = p + 1 + of_nat (length toks)"
      by (rule Cons.IH [OF rest])
    moreover have "c \<noteq> CHR ''[''"
      using 1 by (simp add: component_def)
    ultimately show ?thesis
      using 1 by (subst params_loop.simps) (simp add: nth_append)
  next
    case (2 c)
    have "params_loop ((pre @ [CHR ''['', c]) @ concat toks @ post) (length (pre @ [CHR ''['', c]))
            (length (pre @ [CHR ''['', c]) + length (concat toks)) (p + 1) = p + 1 + of_nat (length toks)"
      by (rule Cons.IH [OF rest])
    then show ?thesis
      using 2 by (subst params_loop.simps) (simp add: nth_append)
  qed
qed

lemma flat_token_chars:
  assumes "flat_token t" and "x \<in> set t"
  shows "x \<noteq> CHR '')'' \<and> x \<noteq> CHR 0x00"
  using assms by (cases rule: flat_token_cases) (auto simp: component_def)

lemma concat_flat_chars:
  assumes "\<forall>t \<in> set toks. flat_token t" and "x \<in> set (concat toks)"
  shows "x \<noteq> CHR '')'' \<and> x \<noteq> CHR 0x00"
  using assms flat_token_chars by auto

lemma c_str_descriptor_of:
  assumes "\<forall>t \<in> set toks. flat_token t"
  shows "c_str (descriptor_of toks ret) = ''('' @ concat toks @ '')'' @ c_str ret"
proof -
  have "\<forall>x \<in> set (''('' @ concat toks @ '')''). x \<noteq> CHR 0x00"
    using concat_flat_chars [OF assms] by auto
  then have "takeWhile (\<lambda>c. c \<noteq> CHR 0x00) ((''('' @ concat toks @ '')'') @ ret)
      = (''('' @ concat toks @ '')'') @ takeWhile (\<lambda>c. c \<noteq> CHR 0x00) ret"
    by (intro takeWhile_append2) blast
  then show ?thesis
    by (simp add: c_str_def descriptor_of_def)
qed

lemma strchr_close:
  assumes "\<forall>t \<in> set toks. flat_token t"
  shows "strchr (descriptor_of toks ret) (CHR '')'') = Some (1 + length (concat toks))"
proof -
  have "\<forall>x \<in> set (''('' @ concat toks). x \<noteq> CHR '')''"
    using concat_flat_chars [OF assms] by auto
  then have "takeWhile (\<lambda>x. x \<noteq> CHR '')'') ((''('' @ concat toks) @ '')'' @ c_str ret)
      = ''('' @ concat toks"
    by (subst takeWhile_append2) auto
  then show ?thesis
    by (simp add: strchr_def c_str_descriptor_of [OF assms])
qed

lemma strchr_open:
  assumes "\<forall>t \<in> set toks. flat_token t"
  shows "strchr (descriptor_of toks ret) (CHR ''('') = Some 0"
  by (simp add: strchr_def c_str_descriptor_of [OF assms])

text \<open>
  What the loop does count: for a descriptor \<^verbatim>\<open>(<params>)<ret>\<close> whose parameter tokens are
  flat (one component character, behind at most one \<^verbatim>\<open>[\<close>), \<^verbatim>\<open>get_number_of_parameters\<close>
  returns the number of the tokens (as the \<^verbatim>\<open>u2\<close> it is; exactly, when there are fewer than
  65536).  These are the descriptors of methods over \<^verbatim>\<open>int\<close> and \<^verbatim>\<open>int[]\<close>.
\<close>

theorem number_of_parameters_flat_tokens:
  assumes "\<forall>t \<in> set toks. flat_token t"
    and "descriptor method = descriptor_of toks ret"
  shows "get_number_of_parameters method = Inr (of_nat (length toks))
       \<and> (length toks < 65536 \<longrightarrow>
            (\<exists>n. get_number_of_parameters method = Inr n \<and> unat n = length toks))"
proof -
  have "params_loop (''('' @ concat toks @ '')'' @ c_str ret) (length ''('')
          (length ''('' + length (concat toks)) 0 = 0 + of_nat (length toks)"
    using assms(1) by (rule params_loop_flat_tokens)
  then have eq: "get_number_of_parameters method = Inr (of_nat (length toks))"
    by (simp add: get_number_of_parameters_def assms(2) strchr_close [OF assms(1)]
        strchr_open [OF assms(1)] c_str_descriptor_of [OF assms(1)])
  moreover have "unat (of_nat (length toks) :: u2) = length toks" if "length toks < 65536"
    using that by (simp add: unat_of_nat)
  ultimately show ?thesis by simp
qed

theorem number_of_parameters_flat_tokens_witness:
  "flat_token ''I'' \<and> flat_token ''[I'' \<and> flat_token ''Z''
   \<and> descriptor (probe ''(I[IZ)I'') = descriptor_of [''I'', ''[I'', ''Z''] ''I''
   \<and> get_number_of_parameters (probe ''(I[IZ)I'') = Inr 3"
proof -
  have toks: "\<forall>t \<in> set [''I'', ''[I'', ''Z'']. flat_token t"
    by (simp add: flat_token_def parameter_token_def component_def)
  have d: "descriptor (probe ''(I[IZ)I'') = descriptor_of [''I'', ''[I'', ''Z''] ''I''"
    by (simp add: probe_def descriptor_of_def)
  show ?thesis
    using number_of_parameters_flat_tokens [OF toks d] toks d by simp
qed

text \<open>
  A descriptor that is never closed has no \<^verbatim>\<open>)\<close> to stop at: the loop does not run and the
  count is 0.
\<close>

lemma number_of_parameters_unclosed:
  "get_number_of_parameters (probe ''(II'') = Inr 0"
  by (simp add: probe_def code_only_def get_number_of_parameters_def strchr_def c_str_def)

text \<open>
  Claim C3.  For a descriptor \<^verbatim>\<open>(<params>)<ret>\<close>, \<^verbatim>\<open>get_number_of_parameters\<close> should return
  the number of parameter tokens, a token being one component character behind any number of
  \<^verbatim>\<open>[\<close>.  The loop skips one \<^verbatim>\<open>[\<close> only (\<^verbatim>\<open>if (start[0] == '[') start++\<close>, where a \<^verbatim>\<open>while\<close>
  would skip them all): the descriptor \<^verbatim>\<open>([[I)V\<close> has the one token \<^verbatim>\<open>[[I\<close>, and the function
  returns 2.
\<close>

theorem number_of_parameters_nested_array:
  "parameter_token ''[[I''
   \<and> descriptor (probe ''([[I)V'') = descriptor_of [''[[I''] ''V''
   \<and> length [''[[I''] = 1
   \<and> get_number_of_parameters (probe ''([[I)V'') = Inr 2
   \<and> get_number_of_parameters (probe ''([[I)V'') \<noteq> Inr (of_nat (length [''[[I'']))"
  by (simp add: parameter_token_def component_def descriptor_of_def probe_def
      get_number_of_parameters_def strchr_def c_str_def params_loop.simps)

section \<open>Sign extension of the immediate operands\<close>


lemma sint_scast_u1: "sint (scast (b :: u1) :: int32_t) = sint b"
  by (rule sint_up_scast) (simp add: is_up)

lemma sint_scast_16: "sint (scast (x :: 16 word) :: int32_t) = sint x"
  by (rule sint_up_scast) (simp add: is_up)

lemma big_endian_or:
  "push_bit 8 (ucast (b1 :: u1) :: int32_t) OR ucast (b2 :: u1) = word_of_int (256 * uint b1 + uint b2)"
proof -
  have "push_bit 8 (ucast b1 :: int32_t) + ucast b2 = push_bit 8 (ucast b1) OR ucast b2"
    by (rule disjunctive_add) (auto simp: bit_simps dest: bit_imp_le_length)
  then have "push_bit 8 (ucast b1 :: int32_t) OR ucast b2 = push_bit 8 (ucast b1) + ucast b2"
    by (rule sym)
  also have "\<dots> = 256 * word_of_int (uint b1) + word_of_int (uint b2)"
    by (simp add: push_bit_eq_mult)
  also have "\<dots> = word_of_int (256 * uint b1 + uint b2)"
    by simp
  finally show ?thesis .
qed

lemma ucast_16_of_int: "(ucast (word_of_int k :: int32_t) :: 16 word) = word_of_int k"
  by (rule bit_word_eqI) (auto simp: bit_simps)

lemma sint_16_of_int:
  assumes "0 \<le> k" and "k < 65536"
  shows "sint (word_of_int k :: 16 word) = (if k < 32768 then k else k - 65536)"
proof (cases "k < 32768")
  case True
  then have "(k + 32768) mod 65536 = k + 32768"
    using assms by simp
  then show ?thesis
    using True by (simp add: int_word_sint)
next
  case False
  then have "(k + 32768) mod 65536 = k + 32768 - 65536"
    using assms by (simp add: mod_pos_geq)
  then show ?thesis
    using False by (simp add: int_word_sint)
qed

lemma sint_sipush_value:
  "sint (sipush_value b1 b2) =
     (if 256 * uint b1 + uint b2 < 32768 then 256 * uint b1 + uint b2
      else 256 * uint b1 + uint b2 - 65536)"
proof -
  have "uint b1 < 256" "uint b2 < 256"
    using uint_bounded [of b1] uint_bounded [of b2] by simp_all
  then have "0 \<le> 256 * uint b1 + uint b2" "256 * uint b1 + uint b2 < 65536"
    by simp_all
  then show ?thesis
    unfolding sipush_value_def big_endian_or ucast_16_of_int sint_scast_16
    by (rule sint_16_of_int)
qed

lemma sipush_examples:
  "sipush_value 0x80 0x00 = - 32768" "sipush_value 0x7F 0xFF = 32767"
  by (simp_all add: sipush_value_def)

section \<open>Single instructions\<close>

lemma push_room:
  assumes "- 1 \<le> stack_pointer fr" and "stack_pointer fr + 1 < int (length (operand_stack fr))"
  shows "push fr v =
    Inr (fr\<lparr>operand_stack := (operand_stack fr)[nat (stack_pointer fr + 1) := v],
            stack_pointer := stack_pointer fr + 1\<rparr>)"
  using assms by (simp add: push_def Let_def)

lemma pop_top:
  assumes "0 \<le> stack_pointer fr" and "stack_pointer fr < int (length (operand_stack fr))"
  shows "pop fr = Inr (operand_stack fr ! nat (stack_pointer fr),
                       fr\<lparr>stack_pointer := stack_pointer fr - 1\<rparr>)"
  using assms by (simp add: pop_def Let_def)

lemma execute_step_switch:
  "bytecode method (pc fr) = Inr instruction \<Longrightarrow> instruction \<noteq> i_invokestatic \<Longrightarrow>
   execute_step n class method fr w = step class method instruction fr w"
  by simp

lemma step_no_label:
  "instruction \<notin> case_labels \<Longrightarrow> step class method instruction fr w = Inr (Continue fr w)"
  by (simp add: step_def case_labels_def)

lemma step_bipush: "step class method i_bipush fr w = continue w (case_i_bipush method fr)"
  by (simp add: step_def)

lemma step_sipush: "step class method i_sipush fr w = continue w (case_i_sipush method fr)"
  by (simp add: step_def)

lemma step_ldc: "step class method i_ldc fr w = continue w (case_i_ldc class method fr)"
  by (simp add: step_def)



lemmas example_defs = code_only_def empty_class_def empty_world_def new_frame_def bytecode_def

text \<open>
  Claim C4.  When the fetched opcode is none of the \<^verbatim>\<open>case\<close> labels, the iteration changes
  nothing: the frame (operand stack, stack pointer, locals, \<^verbatim>\<open>pc\<close>) and the world (heap,
  output) after it are the ones before it.  The loop then fetches the same opcode again, and
  \<^verbatim>\<open>execute\<close> does not return: it is out of fuel for every amount of fuel.
\<close>

theorem unknown_opcode_changes_nothing:
  assumes "pc fr < code_length (code method)"
    and "bytecode method (pc fr) = Inr instruction"
    and "instruction \<notin> case_labels"
  shows "execute_step n class method fr w = Inr (Continue fr w)
       \<and> (\<forall>k. execute_from k class method fr w = Inl OutOfFuel)"
proof -
  have "instruction \<noteq> i_invokestatic"
    using assms(3) by (auto simp: case_labels_def)
  then have one: "execute_step k class method fr w = Inr (Continue fr w)" for k
    using execute_step_switch [OF assms(2)] step_no_label [OF assms(3)] by simp
  have "execute_from k class method fr w = Inl OutOfFuel" for k
  proof (induction k)
    case 0
    show ?case by simp
  next
    case (Suc k)
    then show ?case
      using assms(1) one [of k] by (simp del: execute_step.simps)
  qed
  with one show ?thesis by simp
qed

theorem unknown_opcode_changes_nothing_witness:
  "0x01 \<notin> case_labels
   \<and> execute_step 0 empty_class (code_only 2 1 [0x01])
        \<lparr>operand_stack = [0, 0], stack_pointer = - 1, locals = [Some 0], pc = 0\<rparr> empty_world =
       Inr (Continue \<lparr>operand_stack = [0, 0], stack_pointer = - 1, locals = [Some 0], pc = 0\<rparr> empty_world)
   \<and> (\<forall>k. execute_from k empty_class (code_only 2 1 [0x01])
        \<lparr>operand_stack = [0, 0], stack_pointer = - 1, locals = [Some 0], pc = 0\<rparr> empty_world =
       Inl OutOfFuel)"
  using unknown_opcode_changes_nothing [of "\<lparr>operand_stack = [0, 0], stack_pointer = - 1, locals = [Some 0], pc = 0\<rparr>"
      "code_only 2 1 [0x01]" "0x01" 0 empty_class empty_world]
  by (simp add: example_defs case_labels_def del: execute_step.simps execute_from.simps)

text \<open>
  Claim C8.  With room for one more value on the operand stack, \<^verbatim>\<open>bipush\<close> pushes its operand
  byte sign-extended to 32 bits and advances \<^verbatim>\<open>pc\<close> by 2; \<^verbatim>\<open>sipush\<close> pushes its two operand
  bytes, the first one the high byte, read as a signed 16-bit value, and advances \<^verbatim>\<open>pc\<close> by 3.
  The witness has \<^verbatim>\<open>bipush 0xFF\<close> push -1, \<^verbatim>\<open>sipush 0x8000\<close> push -32768 and
  \<^verbatim>\<open>sipush 0x7FFF\<close> push 32767.
\<close>

theorem immediate_operands_sign_extended:
  assumes "- 1 \<le> stack_pointer fr" and "stack_pointer fr + 1 < int (length (operand_stack fr))"
  shows "(bytecode method (pc fr) = Inr i_bipush \<and> bytecode method (pc fr + 1) = Inr b \<longrightarrow>
            (\<exists>v. execute_step n class method fr w =
                   Inr (Continue (fr\<lparr>operand_stack := (operand_stack fr)[nat (stack_pointer fr + 1) := v],
                                     stack_pointer := stack_pointer fr + 1,
                                     pc := pc fr + 2\<rparr>) w)
                \<and> sint v = sint b))
       \<and> (bytecode method (pc fr) = Inr i_sipush \<and> bytecode method (pc fr + 1) = Inr b1
            \<and> bytecode method (pc fr + 2) = Inr b2 \<longrightarrow>
            (\<exists>v. execute_step n class method fr w =
                   Inr (Continue (fr\<lparr>operand_stack := (operand_stack fr)[nat (stack_pointer fr + 1) := v],
                                     stack_pointer := stack_pointer fr + 1,
                                     pc := pc fr + 3\<rparr>) w)
                \<and> sint v = (if 256 * uint b1 + uint b2 < 32768 then 256 * uint b1 + uint b2
                            else 256 * uint b1 + uint b2 - 65536)))"
proof (intro conjI impI)
  assume a: "bytecode method (pc fr) = Inr i_bipush \<and> bytecode method (pc fr + 1) = Inr b"
  then have "execute_step n class method fr w = continue w (case_i_bipush method fr)"
    using execute_step_switch [of _ fr i_bipush] by (simp add: step_bipush)
  also have "\<dots> = Inr (Continue (fr\<lparr>operand_stack := (operand_stack fr)[nat (stack_pointer fr + 1) := scast b],
                                     stack_pointer := stack_pointer fr + 1,
                                     pc := pc fr + 2\<rparr>) w)"
    using a by (simp add: continue_def case_i_bipush_def push_room [OF assms])
  finally show "\<exists>v. execute_step n class method fr w =
                   Inr (Continue (fr\<lparr>operand_stack := (operand_stack fr)[nat (stack_pointer fr + 1) := v],
                                     stack_pointer := stack_pointer fr + 1,
                                     pc := pc fr + 2\<rparr>) w)
                \<and> sint v = sint b"
    using sint_scast_u1 [of b] by blast
next
  assume a: "bytecode method (pc fr) = Inr i_sipush \<and> bytecode method (pc fr + 1) = Inr b1
            \<and> bytecode method (pc fr + 2) = Inr b2"
  let ?fr = "fr\<lparr>pc := pc fr + 1\<rparr>"
  have room: "- 1 \<le> stack_pointer ?fr" "stack_pointer ?fr + 1 < int (length (operand_stack ?fr))"
    using assms by simp_all
  have "execute_step n class method fr w = continue w (case_i_sipush method fr)"
    using a execute_step_switch [of _ fr i_sipush] by (simp add: step_sipush)
  also have "\<dots> = Inr (Continue (fr\<lparr>operand_stack := (operand_stack fr)[nat (stack_pointer fr + 1) := sipush_value b1 b2],
                                     stack_pointer := stack_pointer fr + 1,
                                     pc := pc fr + 3\<rparr>) w)"
    using a by (simp add: continue_def case_i_sipush_def push_room [OF room] add.commute [of _ "pc fr"])
  finally show "\<exists>v. execute_step n class method fr w =
                   Inr (Continue (fr\<lparr>operand_stack := (operand_stack fr)[nat (stack_pointer fr + 1) := v],
                                     stack_pointer := stack_pointer fr + 1,
                                     pc := pc fr + 3\<rparr>) w)
                \<and> sint v = (if 256 * uint b1 + uint b2 < 32768 then 256 * uint b1 + uint b2
                            else 256 * uint b1 + uint b2 - 65536)"
    using sint_sipush_value [of b1 b2] by blast
qed

theorem immediate_operands_sign_extended_witness:
  "(\<exists>v. execute_step 0 empty_class (code_only 2 0 [i_bipush, 0xFF])
            \<lparr>operand_stack = [0, 0], stack_pointer = - 1, locals = [], pc = 0\<rparr> empty_world =
          Inr (Continue \<lparr>operand_stack = [v, 0], stack_pointer = 0, locals = [], pc = 2\<rparr> empty_world)
        \<and> sint v = - 1)
   \<and> (\<exists>v. execute_step 0 empty_class (code_only 2 0 [i_sipush, 0x80, 0x00])
            \<lparr>operand_stack = [0, 0], stack_pointer = - 1, locals = [], pc = 0\<rparr> empty_world =
          Inr (Continue \<lparr>operand_stack = [v, 0], stack_pointer = 0, locals = [], pc = 3\<rparr> empty_world)
        \<and> sint v = - 32768)
   \<and> (\<exists>v. execute_step 0 empty_class (code_only 2 0 [i_sipush, 0x7F, 0xFF])
            \<lparr>operand_stack = [5, 0], stack_pointer = 0, locals = [], pc = 0\<rparr> empty_world =
          Inr (Continue \<lparr>operand_stack = [5, v], stack_pointer = 1, locals = [], pc = 3\<rparr> empty_world)
        \<and> sint v = 32767)"
  using immediate_operands_sign_extended [of "\<lparr>operand_stack = [0, 0], stack_pointer = - 1, locals = [], pc = 0\<rparr>"
      "code_only 2 0 [i_bipush, 0xFF]" "0xFF" 0 empty_class empty_world]
    immediate_operands_sign_extended [of "\<lparr>operand_stack = [0, 0], stack_pointer = - 1, locals = [], pc = 0\<rparr>"
      "code_only 2 0 [i_sipush, 0x80, 0x00]" _ 0 empty_class empty_world "0x80" "0x00"]
    immediate_operands_sign_extended [of "\<lparr>operand_stack = [5, 0], stack_pointer = 0, locals = [], pc = 0\<rparr>"
      "code_only 2 0 [i_sipush, 0x7F, 0xFF]" _ 0 empty_class empty_world "0x7F" "0xFF"]
  by (simp add: example_defs del: execute_step.simps)

text \<open>
  Claim C10.  \<^verbatim>\<open>ldc\<close> whose operand names a constant of the pool that is not an \<^verbatim>\<open>Integer\<close>
  pushes nothing and fails in nothing: operand stack, stack pointer, locals, heap and output
  stay as they are, and \<^verbatim>\<open>pc\<close> advances by 2.
\<close>

theorem ldc_of_other_tag_pushes_nothing:
  assumes "bytecode method (pc fr) = Inr i_ldc"
    and "bytecode method (pc fr + 1) = Inr index"
    and "pool_entry class index = Inr entry"
    and "\<forall>v. entry \<noteq> CONSTANT_Integer v"
  shows "execute_step n class method fr w = Inr (Continue (fr\<lparr>pc := pc fr + 2\<rparr>) w)"
proof -
  have "execute_step n class method fr w = continue w (case_i_ldc class method fr)"
    using assms(1) execute_step_switch [of _ fr i_ldc] by (simp add: step_ldc)
  also have "\<dots> = Inr (Continue (fr\<lparr>pc := pc fr + 2\<rparr>) w)"
    using assms(2-4) by (cases entry) (simp_all add: continue_def case_i_ldc_def)
  finally show ?thesis .
qed

theorem ldc_of_other_tag_pushes_nothing_witness:
  "execute_step 0 \<lparr>constant_pool = [CONSTANT_Utf8 ''x''], methods = []\<rparr> (code_only 2 0 [i_ldc, 1])
      \<lparr>operand_stack = [0, 0], stack_pointer = - 1, locals = [], pc = 0\<rparr> empty_world =
     Inr (Continue \<lparr>operand_stack = [0, 0], stack_pointer = - 1, locals = [], pc = 2\<rparr> empty_world)"
  using ldc_of_other_tag_pushes_nothing [of "code_only 2 0 [i_ldc, 1]"
      "\<lparr>operand_stack = [0, 0], stack_pointer = - 1, locals = [], pc = 0\<rparr>" 1
      "\<lparr>constant_pool = [CONSTANT_Utf8 ''x''], methods = []\<rparr>" "CONSTANT_Utf8 ''x''" 0 empty_world]
  by (simp add: example_defs pool_entry_def del: execute_step.simps)





text \<open>\<^verbatim>\<open>iushr\<close> treats its count in the same way.\<close>

lemma iushr_by_33:
  "execute_step 0 empty_class (code_only 2 0 [i_iushr])
      \<lparr>operand_stack = [- 8, 33], stack_pointer = 1, locals = [], pc = 0\<rparr> empty_world =
     Inr (Continue \<lparr>operand_stack = [0x7FFFFFFC, 33], stack_pointer = 0, locals = [], pc = 1\<rparr> empty_world)"
  by code_simp

section \<open>Arrays\<close>

lemma step_newarray: "step class method i_newarray fr w = continue_world (case_i_newarray fr w)"
  by (simp add: step_def)

lemma step_arraylength: "step class method i_arraylength fr w = continue w (case_i_arraylength fr w)"
  by (simp add: step_def)

lemma fold_store_zero:
  assumes "\<forall>i \<in> set js. i < length xs \<and> xs ! i = 0"
  shows "fold (\<lambda>i a. a[i := 0 :: int32_t]) js xs = xs"
  using assms
proof (induction js)
  case Nil
  show ?case by simp
next
  case (Cons j js)
  then have "xs ! j = 0"
    by simp
  then have "xs[j := 0] = xs"
    by (metis list_update_id)
  with Cons show ?case
    by simp
qed

lemma new_array_of_value:
  assumes "sint n < INT32_MAX"
  shows "new_array_of n = Inr (if 0 < sint n then n # replicate (nat (sint n)) 0 else [n])"
proof -
  have lo: "INT32_MIN \<le> sint n + 1"
    using sint_ge [of n] by (simp add: INT32_MIN_def)
  have hi: "sint n + 1 \<le> INT32_MAX"
    using assms by simp
  have of: "int32_of (sint n + 1) = Inr (word_of_int (sint n + 1))"
    using lo hi by (rule int32_of_in_range)
  have s: "sint (word_of_int (sint n + 1) :: int32_t) = sint n + 1"
    using lo hi by (rule sint_int32)
  show ?thesis
  proof (cases "0 < sint n")
    case True
    then have r: "(replicate (nat (sint n + 1)) 0)[0 := n] = n # replicate (nat (sint n)) 0"
      by (cases "nat (sint n + 1)") (simp_all add: nat_add_distrib)
    have "fold (\<lambda>i a. a[i := 0]) [1 ..< nat (sint n + 1)] (n # replicate (nat (sint n)) 0)
        = n # replicate (nat (sint n)) 0"
      using True by (intro fold_store_zero) (auto simp: nth_Cons')
    then show ?thesis
      using True by (simp only: new_array_of_def of then_do_Inr s r Let_def) simp
  next
    case False
    then have "[1 ..< nat (sint n + 1)] = []"
      by simp
    then show ?thesis
      using False by (simp only: new_array_of_def of then_do_Inr s Let_def) simp
  qed
qed

text \<open>
  Claim C7, as amended.  \<^verbatim>\<open>newarray\<close> pops the count \<open>n\<close>, \<open>n\<close> less than \<open>2^31 - 1\<close>.  When
  \<open>0 < n\<close> the new array has \<open>n + 1\<close> slots, slot 0 holding \<open>n\<close> and slots \<open>1 .. n\<close> holding
  0; when \<open>n \<le> 0\<close> it has the one slot holding \<open>n\<close>.  The array is appended to the heap, its
  reference (the heap's count before) is pushed in place of the count, and \<^verbatim>\<open>pc\<close> advances by
  2.  An \<^verbatim>\<open>arraylength\<close> that follows pushes \<open>n\<close>: 0 after \<^verbatim>\<open>newarray\<close> of 0.  The heap has room
  for one more array.
\<close>

theorem newarray_allocates:
  assumes "bytecode method (pc fr) = Inr i_newarray"
    and "0 \<le> stack_pointer fr" and "stack_pointer fr < int (length (operand_stack fr))"
    and "operand_stack fr ! nat (stack_pointer fr) = n"
    and "sint n < INT32_MAX"
    and "sint (count (heap w)) = int (length (ptr (heap w)))"
    and "int (length (ptr (heap w))) < INT32_MAX"
  shows "\<exists>w1 fr1.
           execute_step k class method fr w = Inr (Continue fr1 w1)
         \<and> fr1 = fr\<lparr>operand_stack := (operand_stack fr)[nat (stack_pointer fr) := count (heap w)],
                    pc := pc fr + 2\<rparr>
         \<and> w1 = w\<lparr>heap := \<lparr>ptr = ptr (heap w) @ [if 0 < sint n then n # replicate (nat (sint n)) 0 else [n]],
                            count = count (heap w) + 1\<rparr>\<rparr>
         \<and> heap_get (heap w1) (count (heap w))
               = Inr (if 0 < sint n then n # replicate (nat (sint n)) 0 else [n])
         \<and> (bytecode method (pc fr + 2) = Inr i_arraylength \<longrightarrow>
               execute_step k class method fr1 w1
                 = Inr (Continue (fr1\<lparr>operand_stack := (operand_stack fr)[nat (stack_pointer fr) := n],
                                      pc := pc fr + 3\<rparr>) w1))"
proof -
  let ?a = "if 0 < sint n then n # replicate (nat (sint n)) 0 else [n]"
  let ?h1 = "\<lparr>ptr = ptr (heap w) @ [?a], count = count (heap w) + 1\<rparr>"
  let ?fr0 = "fr\<lparr>stack_pointer := stack_pointer fr - 1\<rparr>"
  let ?fr1 = "fr\<lparr>operand_stack := (operand_stack fr)[nat (stack_pointer fr) := count (heap w)],
                  pc := pc fr + 2\<rparr>"
  let ?w1 = "w\<lparr>heap := ?h1\<rparr>"
  have p: "pop fr = Inr (n, ?fr0)"
    using assms(2-4) pop_top [of fr] by simp
  have a: "new_array_of n = Inr ?a"
    using assms(5) by (rule new_array_of_value)
  have h: "heap_add (heap w) ?a = Inr (count (heap w), ?h1)"
    using assms(6,7) by (rule heap_add_wf)
  have q: "push ?fr0 r = Inr (fr\<lparr>operand_stack := (operand_stack fr)[nat (stack_pointer fr) := r]\<rparr>)" for r
    using assms(2,3) push_room [of ?fr0 r] by simp
  have "case_i_newarray fr w = Inr (?fr1, ?w1)"
    by (simp add: case_i_newarray_def p a h q del: heap_add_all.simps)
  then have one: "execute_step k class method fr w = Inr (Continue ?fr1 ?w1)"
    using assms(1) execute_step_switch [of _ fr i_newarray] 
    by (simp add: step_newarray continue_world_def del: execute_step.simps)
  have idx: "nat (sint (count (heap w))) = length (ptr (heap w))"
    using assms(6) by simp
  have g: "heap_get (heap ?w1) (count (heap w)) = Inr ?a"
    using assms(6) by (simp add: heap_get_def idx)
  have two: "execute_step k class method ?fr1 ?w1
      = Inr (Continue (?fr1\<lparr>operand_stack := (operand_stack fr)[nat (stack_pointer fr) := n],
                            pc := pc fr + 3\<rparr>) ?w1)"
    if al: "bytecode method (pc fr + 2) = Inr i_arraylength"
  proof -
    have p1: "pop ?fr1 = Inr (count (heap w), ?fr1\<lparr>stack_pointer := stack_pointer fr - 1\<rparr>)"
      using assms(2,3) pop_top [of ?fr1] by simp
    have g0: "array_get ?a 0 = Inr n"
      by (simp add: array_get_def)
    have q1: "push (?fr1\<lparr>stack_pointer := stack_pointer fr - 1\<rparr>) r
        = Inr (?fr1\<lparr>operand_stack := (operand_stack fr)[nat (stack_pointer fr) := r]\<rparr>)" for r
      using assms(2,3) push_room [of "?fr1\<lparr>stack_pointer := stack_pointer fr - 1\<rparr>" r] by simp
    have "case_i_arraylength ?fr1 ?w1
        = Inr (?fr1\<lparr>operand_stack := (operand_stack fr)[nat (stack_pointer fr) := n],
                    pc := pc fr + 3\<rparr>)"
      using g by (simp add: case_i_arraylength_def p1 g0 q1)
    then show ?thesis
      using al execute_step_switch [of _ ?fr1 i_arraylength]
      by (simp add: step_arraylength continue_def del: execute_step.simps)
  qed
  show ?thesis
    using one g two by blast
qed

theorem newarray_allocates_witness:
  "execute_step 0 empty_class (code_only 2 0 [i_newarray, 10, i_arraylength])
      \<lparr>operand_stack = [3, 0], stack_pointer = 0, locals = [], pc = 0\<rparr> empty_world
     = Inr (Continue \<lparr>operand_stack = [0, 0], stack_pointer = 0, locals = [], pc = 2\<rparr>
              \<lparr>heap = \<lparr>ptr = [[3, 0, 0, 0]], count = 1\<rparr>, printed = []\<rparr>)
   \<and> execute_step 0 empty_class (code_only 2 0 [i_newarray, 10, i_arraylength])
      \<lparr>operand_stack = [0, 0], stack_pointer = 0, locals = [], pc = 2\<rparr>
      \<lparr>heap = \<lparr>ptr = [[3, 0, 0, 0]], count = 1\<rparr>, printed = []\<rparr>
     = Inr (Continue \<lparr>operand_stack = [3, 0], stack_pointer = 0, locals = [], pc = 3\<rparr>
              \<lparr>heap = \<lparr>ptr = [[3, 0, 0, 0]], count = 1\<rparr>, printed = []\<rparr>)
   \<and> execute_step 0 empty_class (code_only 2 0 [i_newarray, 10, i_arraylength])
      \<lparr>operand_stack = [0, 0], stack_pointer = 0, locals = [], pc = 0\<rparr> empty_world
     = Inr (Continue \<lparr>operand_stack = [0, 0], stack_pointer = 0, locals = [], pc = 2\<rparr>
              \<lparr>heap = \<lparr>ptr = [[0]], count = 1\<rparr>, printed = []\<rparr>)
   \<and> execute_step 0 empty_class (code_only 2 0 [i_newarray, 10, i_arraylength])
      \<lparr>operand_stack = [0, 0], stack_pointer = 0, locals = [], pc = 2\<rparr>
      \<lparr>heap = \<lparr>ptr = [[0]], count = 1\<rparr>, printed = []\<rparr>
     = Inr (Continue \<lparr>operand_stack = [0, 0], stack_pointer = 0, locals = [], pc = 3\<rparr>
              \<lparr>heap = \<lparr>ptr = [[0]], count = 1\<rparr>, printed = []\<rparr>)"
  using newarray_allocates [of "code_only 2 0 [i_newarray, 10, i_arraylength]"
      "\<lparr>operand_stack = [3, 0], stack_pointer = 0, locals = [], pc = 0\<rparr>" 3 empty_world 0 empty_class]
    newarray_allocates [of "code_only 2 0 [i_newarray, 10, i_arraylength]"
      "\<lparr>operand_stack = [0, 0], stack_pointer = 0, locals = [], pc = 0\<rparr>" 0 empty_world 0 empty_class]
  by (simp add: example_defs heap_init_def INT32_MAX_def numeral_3_eq_3 del: execute_step.simps)

text \<open>
  The claim as it stands is for every \<open>n > 0\<close>.  For \<open>n = 2^31 - 1\<close> the size \<^verbatim>\<open>count + 1\<close>
  that the source computes for \<^verbatim>\<open>calloc\<close> overflows \<^verbatim>\<open>int32_t\<close>: no array of \<open>n + 1\<close> slots is
  made.
\<close>

theorem newarray_of_INT32_MAX_overflows:
  "execute_step 0 empty_class (code_only 2 0 [i_newarray, 10])
      \<lparr>operand_stack = [0x7FFFFFFF, 0], stack_pointer = 0, locals = [], pc = 0\<rparr> empty_world
     = Inl SignedOverflow"
  by (simp add: example_defs step_def continue_world_def case_i_newarray_def pop_def
      new_array_of_def int32_of_def INT32_MAX_def INT32_MIN_def)

lemma step_iastore: "step class method i_iastore fr w = continue_world (case_i_iastore fr w)"
  by (simp add: step_def)

lemma step_iaload: "step class method i_iaload fr w = continue w (case_i_iaload fr w)"
  by (simp add: step_def)

lemma heap_get_Inr:
  "heap_get h r = Inr a \<Longrightarrow> 0 \<le> sint r \<and> nat (sint r) < length (ptr h) \<and> ptr h ! nat (sint r) = a"
  by (simp add: heap_get_def split: if_splits)

lemma index_plus_one:
  assumes "0 \<le> sint (i :: int32_t)" and "sint i < sint (n :: int32_t)"
  shows "int32_of (sint i + 1) = Inr (word_of_int (sint i + 1))"
    and "sint (word_of_int (sint i + 1) :: int32_t) = sint i + 1"
    and "sint (i + 1) = sint i + 1"
proof -
  have "sint n < 2 ^ 31"
    using sint_lt [of n] by simp
  then have b: "INT32_MIN \<le> sint i + 1" "sint i + 1 \<le> INT32_MAX"
    using assms by (simp_all add: INT32_MIN_def INT32_MAX_def)
  show "int32_of (sint i + 1) = Inr (word_of_int (sint i + 1))"
    using b by (rule int32_of_in_range)
  show s: "sint (word_of_int (sint i + 1) :: int32_t) = sint i + 1"
    using b by (rule sint_int32)
  show "sint (i + 1) = sint i + 1"
    using s by simp
qed

lemma arraylength_pushes_slot_0:
  assumes "bytecode method (pc fr) = Inr i_arraylength"
    and "0 \<le> stack_pointer fr" and "stack_pointer fr < int (length (operand_stack fr))"
    and "operand_stack fr ! nat (stack_pointer fr) = ref"
    and "heap_get (heap w) ref = Inr a" and "a \<noteq> []"
  shows "execute_step k class method fr w =
           Inr (Continue (fr\<lparr>operand_stack := (operand_stack fr)[nat (stack_pointer fr) := a ! 0],
                             pc := pc fr + 1\<rparr>) w)"
proof -
  let ?fr0 = "fr\<lparr>stack_pointer := stack_pointer fr - 1\<rparr>"
  have p: "pop fr = Inr (ref, ?fr0)"
    using assms(2-4) pop_top [of fr] by simp
  have g0: "array_get a 0 = Inr (a ! 0)"
    using assms(6) by (simp add: array_get_def)
  have q: "push ?fr0 r = Inr (fr\<lparr>operand_stack := (operand_stack fr)[nat (stack_pointer fr) := r]\<rparr>)" for r
    using assms(2,3) push_room [of ?fr0 r] by simp
  have "case_i_arraylength fr w
      = Inr (fr\<lparr>operand_stack := (operand_stack fr)[nat (stack_pointer fr) := a ! 0], pc := pc fr + 1\<rparr>)"
    by (simp add: case_i_arraylength_def p assms(5) g0 q)
  then show ?thesis
    using assms(1) execute_step_switch [of _ fr i_arraylength]
    by (simp add: step_arraylength continue_def del: execute_step.simps)
qed

lemma iaload_pushes_slot_index_plus_1:
  assumes "bytecode method (pc fr) = Inr i_iaload"
    and "1 \<le> stack_pointer fr" and "stack_pointer fr < int (length (operand_stack fr))"
    and "operand_stack fr ! nat (stack_pointer fr) = index"
    and "operand_stack fr ! nat (stack_pointer fr - 1) = ref"
    and "heap_get (heap w) ref = Inr a"
    and "length a = nat (sint (n :: int32_t)) + 1" and "0 \<le> sint index" and "sint index < sint n"
  shows "execute_step k class method fr w =
           Inr (Continue (fr\<lparr>operand_stack := (operand_stack fr)[nat (stack_pointer fr - 1) := a ! (nat (sint index) + 1)],
                             stack_pointer := stack_pointer fr - 1,
                             pc := pc fr + 1\<rparr>) w)"
proof -
  let ?fr1 = "fr\<lparr>stack_pointer := stack_pointer fr - 1\<rparr>"
  let ?fr2 = "fr\<lparr>stack_pointer := stack_pointer fr - 2\<rparr>"
  have p1: "pop fr = Inr (index, ?fr1)"
    using assms(2-4) pop_top [of fr] by simp
  have p2: "pop ?fr1 = Inr (ref, ?fr2)"
    using assms(2,3,5) pop_top [of ?fr1] by simp
  have g: "array_get a (sint index + 1) = Inr (a ! (nat (sint index) + 1))"
    using assms(7-9) by (simp add: array_get_def nat_add_distrib)
  have q: "push ?fr2 r = Inr (fr\<lparr>operand_stack := (operand_stack fr)[nat (stack_pointer fr - 1) := r],
                                 stack_pointer := stack_pointer fr - 1\<rparr>)" for r
    using assms(2,3) push_room [of ?fr2 r] by simp
  have "case_i_iaload fr w
      = Inr (fr\<lparr>operand_stack := (operand_stack fr)[nat (stack_pointer fr - 1) := a ! (nat (sint index) + 1)],
                stack_pointer := stack_pointer fr - 1, pc := pc fr + 1\<rparr>)"
    by (simp add: case_i_iaload_def p1 p2 assms(6) index_plus_one [OF assms(8,9)] g q)
  then show ?thesis
    using assms(1) execute_step_switch [of _ fr i_iaload]
    by (simp add: step_iaload continue_def del: execute_step.simps)
qed

lemma iastore_writes_slot_index_plus_1:
  assumes "bytecode method (pc fr) = Inr i_iastore"
    and "2 \<le> stack_pointer fr" and "stack_pointer fr < int (length (operand_stack fr))"
    and "operand_stack fr ! nat (stack_pointer fr) = v"
    and "operand_stack fr ! nat (stack_pointer fr - 1) = index"
    and "operand_stack fr ! nat (stack_pointer fr - 2) = ref"
    and "heap_get (heap w) ref = Inr a"
    and "length a = nat (sint (n :: int32_t)) + 1" and "0 \<le> sint index" and "sint index < sint n"
  shows "execute_step k class method fr w =
           Inr (Continue (fr\<lparr>stack_pointer := stack_pointer fr - 3, pc := pc fr + 1\<rparr>)
                  (w\<lparr>heap := (heap w)\<lparr>ptr := (ptr (heap w))[nat (sint ref) := a[nat (sint index) + 1 := v]]\<rparr>\<rparr>))"
proof -
  let ?fr1 = "fr\<lparr>stack_pointer := stack_pointer fr - 1\<rparr>"
  let ?fr2 = "fr\<lparr>stack_pointer := stack_pointer fr - 2\<rparr>"
  let ?fr3 = "fr\<lparr>stack_pointer := stack_pointer fr - 3\<rparr>"
  have p1: "pop fr = Inr (v, ?fr1)"
    using assms(2-4) pop_top [of fr] by simp
  have p2: "pop ?fr1 = Inr (index, ?fr2)"
    using assms(2,3,5) pop_top [of ?fr1] by simp
  have p3: "pop ?fr2 = Inr (ref, ?fr3)"
    using assms(2,3,6) pop_top [of ?fr2] by simp
  have s: "array_set a (sint index + 1) v = Inr (a[nat (sint index) + 1 := v])"
    using assms(8-10) by (simp add: array_set_def nat_add_distrib)
  have "case_i_iastore fr w
      = Inr (fr\<lparr>stack_pointer := stack_pointer fr - 3, pc := pc fr + 1\<rparr>,
             w\<lparr>heap := (heap w)\<lparr>ptr := (ptr (heap w))[nat (sint ref) := a[nat (sint index) + 1 := v]]\<rparr>\<rparr>)"
    by (simp add: case_i_iastore_def p1 p2 p3 assms(7) index_plus_one [OF assms(9,10)] s)
  then show ?thesis
    using assms(1) execute_step_switch [of _ fr i_iastore]
    by (simp add: step_iastore continue_world_def del: execute_step.simps)
qed

text \<open>
  Claim C6.  An array of the heap with \<open>n\<close> elements has \<open>n + 1\<close> slots, slot 0 holding \<open>n\<close>.
  For an index \<open>0 \<le> i < n\<close>: \<^verbatim>\<open>iastore\<close> of \<open>v\<close> at \<open>i\<close> writes slot \<open>i + 1\<close> of the array and
  nothing else; \<^verbatim>\<open>iaload\<close> at \<open>i\<close> pushes slot \<open>i + 1\<close>, so after the store it pushes \<open>v\<close>;
  \<^verbatim>\<open>arraylength\<close> pushes slot 0, which is \<open>n\<close> before the store and after it.  \<open>fr\<close>,
  \<open>fr_load\<close> and \<open>fr_len\<close> are frames at the three instructions, with the operands on top of
  their stacks.
\<close>

theorem array_elements_offset_by_one:
  assumes store:
      "bytecode method (pc fr) = Inr i_iastore"
      "2 \<le> stack_pointer fr" "stack_pointer fr < int (length (operand_stack fr))"
      "operand_stack fr ! nat (stack_pointer fr) = v"
      "operand_stack fr ! nat (stack_pointer fr - 1) = index"
      "operand_stack fr ! nat (stack_pointer fr - 2) = ref"
    and load:
      "bytecode method (pc fr_load) = Inr i_iaload"
      "1 \<le> stack_pointer fr_load" "stack_pointer fr_load < int (length (operand_stack fr_load))"
      "operand_stack fr_load ! nat (stack_pointer fr_load) = index"
      "operand_stack fr_load ! nat (stack_pointer fr_load - 1) = ref"
    and len:
      "bytecode method (pc fr_len) = Inr i_arraylength"
      "0 \<le> stack_pointer fr_len" "stack_pointer fr_len < int (length (operand_stack fr_len))"
      "operand_stack fr_len ! nat (stack_pointer fr_len) = ref"
    and array:
      "heap_get (heap w) ref = Inr a" "length a = nat (sint n) + 1" "a ! 0 = n"
      "0 \<le> sint index" "sint index < sint n"
  shows "\<exists>w1.
           execute_step k class method fr w =
             Inr (Continue (fr\<lparr>stack_pointer := stack_pointer fr - 3, pc := pc fr + 1\<rparr>) w1)
         \<and> heap_get (heap w1) ref = Inr (a[nat (sint index) + 1 := v])
         \<and> execute_step k class method fr_load w1 =
             Inr (Continue (fr_load\<lparr>operand_stack :=
                                       (operand_stack fr_load)[nat (stack_pointer fr_load - 1) := v],
                                     stack_pointer := stack_pointer fr_load - 1,
                                     pc := pc fr_load + 1\<rparr>) w1)
         \<and> execute_step k class method fr_load w =
             Inr (Continue (fr_load\<lparr>operand_stack :=
                                       (operand_stack fr_load)[nat (stack_pointer fr_load - 1) :=
                                          a ! (nat (sint index) + 1)],
                                     stack_pointer := stack_pointer fr_load - 1,
                                     pc := pc fr_load + 1\<rparr>) w)
         \<and> execute_step k class method fr_len w =
             Inr (Continue (fr_len\<lparr>operand_stack :=
                                      (operand_stack fr_len)[nat (stack_pointer fr_len) := n],
                                    pc := pc fr_len + 1\<rparr>) w)
         \<and> execute_step k class method fr_len w1 =
             Inr (Continue (fr_len\<lparr>operand_stack :=
                                      (operand_stack fr_len)[nat (stack_pointer fr_len) := n],
                                    pc := pc fr_len + 1\<rparr>) w1)"
proof -
  let ?a1 = "a[nat (sint index) + 1 := v]"
  let ?w1 = "w\<lparr>heap := (heap w)\<lparr>ptr := (ptr (heap w))[nat (sint ref) := ?a1]\<rparr>\<rparr>"
  have r: "0 \<le> sint ref" "nat (sint ref) < length (ptr (heap w))"
    using heap_get_Inr [OF array(1)] by simp_all
  have in_a: "nat (sint index) + 1 < length a"
    using array(2,4,5) by simp
  have st: "execute_step k class method fr w =
      Inr (Continue (fr\<lparr>stack_pointer := stack_pointer fr - 3, pc := pc fr + 1\<rparr>) ?w1)"
    using store array(1,2,4,5) by (rule iastore_writes_slot_index_plus_1)
  have g1: "heap_get (heap ?w1) ref = Inr ?a1"
    using r by (simp add: heap_get_def)
  have l1: "length ?a1 = nat (sint n) + 1"
    using array(2) by simp
  have ld1: "execute_step k class method fr_load ?w1 =
      Inr (Continue (fr_load\<lparr>operand_stack :=
                                (operand_stack fr_load)[nat (stack_pointer fr_load - 1) :=
                                   ?a1 ! (nat (sint index) + 1)],
                              stack_pointer := stack_pointer fr_load - 1,
                              pc := pc fr_load + 1\<rparr>) ?w1)"
    using load g1 l1 array(4,5) by (rule iaload_pushes_slot_index_plus_1)
  have same: "?a1 ! (nat (sint index) + 1) = v"
    using in_a by simp
  have ld: "execute_step k class method fr_load w =
      Inr (Continue (fr_load\<lparr>operand_stack :=
                                (operand_stack fr_load)[nat (stack_pointer fr_load - 1) :=
                                   a ! (nat (sint index) + 1)],
                              stack_pointer := stack_pointer fr_load - 1,
                              pc := pc fr_load + 1\<rparr>) w)"
    using load array(1,2,4,5) by (rule iaload_pushes_slot_index_plus_1)
  have ne: "a \<noteq> []" "?a1 \<noteq> []"
    using array(2) by auto
  have n1: "?a1 ! 0 = n"
    using array(3) by simp
  have ln: "execute_step k class method fr_len w =
      Inr (Continue (fr_len\<lparr>operand_stack :=
                               (operand_stack fr_len)[nat (stack_pointer fr_len) := a ! 0],
                             pc := pc fr_len + 1\<rparr>) w)"
    using len array(1) ne(1) by (rule arraylength_pushes_slot_0)
  have ln1: "execute_step k class method fr_len ?w1 =
      Inr (Continue (fr_len\<lparr>operand_stack :=
                               (operand_stack fr_len)[nat (stack_pointer fr_len) := ?a1 ! 0],
                             pc := pc fr_len + 1\<rparr>) ?w1)"
    using len g1 ne(2) by (rule arraylength_pushes_slot_0)
  show ?thesis
    using st g1 ld1 ld ln ln1 unfolding same n1 array(3)
    by (intro exI [of _ ?w1]) (simp del: execute_step.simps)
qed

theorem array_elements_offset_by_one_witness:
  "execute_step 0 empty_class (code_only 3 0 [i_iastore, i_iaload, i_arraylength])
      \<lparr>operand_stack = [0, 1, 20], stack_pointer = 2, locals = [], pc = 0\<rparr>
      \<lparr>heap = \<lparr>ptr = [[3, 0, 0, 0]], count = 1\<rparr>, printed = []\<rparr>
     = Inr (Continue \<lparr>operand_stack = [0, 1, 20], stack_pointer = - 1, locals = [], pc = 1\<rparr>
              \<lparr>heap = \<lparr>ptr = [[3, 0, 20, 0]], count = 1\<rparr>, printed = []\<rparr>)
   \<and> execute_step 0 empty_class (code_only 3 0 [i_iastore, i_iaload, i_arraylength])
      \<lparr>operand_stack = [0, 1, 0], stack_pointer = 1, locals = [], pc = 1\<rparr>
      \<lparr>heap = \<lparr>ptr = [[3, 0, 20, 0]], count = 1\<rparr>, printed = []\<rparr>
     = Inr (Continue \<lparr>operand_stack = [20, 1, 0], stack_pointer = 0, locals = [], pc = 2\<rparr>
              \<lparr>heap = \<lparr>ptr = [[3, 0, 20, 0]], count = 1\<rparr>, printed = []\<rparr>)
   \<and> execute_step 0 empty_class (code_only 3 0 [i_iastore, i_iaload, i_arraylength])
      \<lparr>operand_stack = [0, 0, 0], stack_pointer = 0, locals = [], pc = 2\<rparr>
      \<lparr>heap = \<lparr>ptr = [[3, 0, 20, 0]], count = 1\<rparr>, printed = []\<rparr>
     = Inr (Continue \<lparr>operand_stack = [3, 0, 0], stack_pointer = 0, locals = [], pc = 3\<rparr>
              \<lparr>heap = \<lparr>ptr = [[3, 0, 20, 0]], count = 1\<rparr>, printed = []\<rparr>)"
proof -
  let ?M = "code_only 3 0 [i_iastore, i_iaload, i_arraylength]"
  let ?W = "\<lparr>heap = \<lparr>ptr = [[3, 0, 0, 0]], count = 1\<rparr>, printed = []\<rparr>"
  let ?W1 = "\<lparr>heap = \<lparr>ptr = [[3, 0, 20, 0]], count = 1\<rparr>, printed = []\<rparr>"
  let ?fr = "\<lparr>operand_stack = [0, 1, 20], stack_pointer = 2, locals = [], pc = 0\<rparr>"
  let ?fr_load = "\<lparr>operand_stack = [0, 1, 0], stack_pointer = 1, locals = [], pc = 1\<rparr>"
  let ?fr_len = "\<lparr>operand_stack = [0, 0, 0], stack_pointer = 0, locals = [], pc = 2\<rparr>"
  have "\<exists>w1.
      execute_step 0 empty_class ?M ?fr ?W =
        Inr (Continue \<lparr>operand_stack = [0, 1, 20], stack_pointer = - 1, locals = [], pc = 1\<rparr> w1)
    \<and> execute_step 0 empty_class ?M ?fr_load w1 =
        Inr (Continue \<lparr>operand_stack = [20, 1, 0], stack_pointer = 0, locals = [], pc = 2\<rparr> w1)
    \<and> execute_step 0 empty_class ?M ?fr_len w1 =
        Inr (Continue \<lparr>operand_stack = [3, 0, 0], stack_pointer = 0, locals = [], pc = 3\<rparr> w1)"
    using array_elements_offset_by_one [of ?M ?fr 20 1 0 ?fr_load ?fr_len ?W "[3, 0, 0, 0]" 3 0 empty_class]
    by (simp add: example_defs heap_get_def del: execute_step.simps) blast
  then obtain w1 where
    a: "execute_step 0 empty_class ?M ?fr ?W =
        Inr (Continue \<lparr>operand_stack = [0, 1, 20], stack_pointer = - 1, locals = [], pc = 1\<rparr> w1)"
    and b: "execute_step 0 empty_class ?M ?fr_load w1 =
        Inr (Continue \<lparr>operand_stack = [20, 1, 0], stack_pointer = 0, locals = [], pc = 2\<rparr> w1)"
    and c: "execute_step 0 empty_class ?M ?fr_len w1 =
        Inr (Continue \<lparr>operand_stack = [3, 0, 0], stack_pointer = 0, locals = [], pc = 3\<rparr> w1)"
    by blast
  have "execute_step 0 empty_class ?M ?fr ?W =
        Inr (Continue \<lparr>operand_stack = [0, 1, 20], stack_pointer = - 1, locals = [], pc = 1\<rparr> ?W1)"
    by (simp add: example_defs step_def continue_world_def case_i_iastore_def pop_def heap_get_def
        int32_of_def INT32_MIN_def INT32_MAX_def array_set_def)
  with a have "w1 = ?W1"
    by simp
  with a b c show ?thesis
    by simp
qed

section \<open>invokestatic\<close>

lemma pop_arguments_in_order:
  assumes "int k \<le> stack_pointer fr + 1" and "stack_pointer fr < int (length (operand_stack fr))"
    and "k \<le> length ls"
  shows "\<exists>ls1. pop_arguments k fr ls = Inr (fr\<lparr>stack_pointer := stack_pointer fr - int k\<rparr>, ls1)
           \<and> length ls1 = length ls
           \<and> (\<forall>i < k. ls1 ! i = Some (operand_stack fr ! (nat (stack_pointer fr + 1) - k + i)))
           \<and> (\<forall>i. k \<le> i \<longrightarrow> i < length ls \<longrightarrow> ls1 ! i = ls ! i)"
  using assms
proof (induction k arbitrary: fr ls)
  case 0
  then show ?case by simp
next
  case (Suc k)
  let ?top = "operand_stack fr ! nat (stack_pointer fr)"
  let ?fr1 = "fr\<lparr>stack_pointer := stack_pointer fr - 1\<rparr>"
  let ?ls1 = "ls[k := Some ?top]"
  have p: "pop fr = Inr (?top, ?fr1)"
    using Suc.prems(1,2) by (intro pop_top) simp_all
  have k: "k < length ls"
    using Suc.prems(3) by simp
  have "int k \<le> stack_pointer ?fr1 + 1" "stack_pointer ?fr1 < int (length (operand_stack ?fr1))"
    "k \<le> length ?ls1"
    using Suc.prems by simp_all
  from Suc.IH [OF this] obtain ls2 where
    run: "pop_arguments k ?fr1 ?ls1 = Inr (?fr1\<lparr>stack_pointer := stack_pointer ?fr1 - int k\<rparr>, ls2)"
    and len: "length ls2 = length ?ls1"
    and args: "\<forall>i < k. ls2 ! i = Some (operand_stack ?fr1 ! (nat (stack_pointer ?fr1 + 1) - k + i))"
    and rest: "\<forall>i. k \<le> i \<longrightarrow> i < length ?ls1 \<longrightarrow> ls2 ! i = ?ls1 ! i"
    by blast
  have "pop_arguments (Suc k) fr ls = Inr (fr\<lparr>stack_pointer := stack_pointer fr - int (Suc k)\<rparr>, ls2)"
    using k by (simp add: p run)
  moreover have "length ls2 = length ls"
    using len by simp
  moreover have "ls2 ! i = Some (operand_stack fr ! (nat (stack_pointer fr + 1) - Suc k + i))"
    if "i < Suc k" for i
  proof (cases "i < k")
    case True
    have "nat (stack_pointer fr) - k + i = nat (stack_pointer fr + 1) - Suc k + i"
      using Suc.prems(1) by (simp add: nat_add_distrib)
    then show ?thesis
      using args True by simp
  next
    case False
    then have i: "i = k"
      using that by simp
    have "ls2 ! k = Some ?top"
      using rest k by simp
    moreover have "nat (stack_pointer fr + 1) - Suc k + k = nat (stack_pointer fr)"
      using Suc.prems(1) by (simp add: nat_add_distrib)
    ultimately show ?thesis
      using i by simp
  qed
  moreover have "ls2 ! i = ls ! i" if "Suc k \<le> i" "i < length ls" for i
    using rest that by simp
  ultimately show ?case
    by blast
qed

lemma length_memset_zero [simp]: "length (memset_zero a n) = length a"
  by (simp add: memset_zero_def)

lemma invoke_setup_in_order:
  assumes "bytecode method (pc fr + 1) = Inr b1" and "bytecode method (pc fr + 2) = Inr b2"
    and "find_method_from_index (push_bit 8 (ucast b1) OR ucast b2) class = Inr (Some callee)"
    and "get_number_of_parameters callee = Inr num_params"
    and "unat num_params \<le> unat (max_locals (code callee))"
    and "int (unat num_params) \<le> stack_pointer fr + 1"
    and "stack_pointer fr < int (length (operand_stack fr))"
  shows "\<exists>ls. invoke_setup class method fr =
              Inr (callee, ls, fr\<lparr>stack_pointer := stack_pointer fr - int (unat num_params),
                                   pc := pc fr + 1\<rparr>)
           \<and> length ls = unat (max_locals (code callee))
           \<and> (\<forall>i < unat num_params.
                 ls ! i = Some (operand_stack fr ! (nat (stack_pointer fr + 1) - unat num_params + i)))"
proof -
  let ?fr = "fr\<lparr>pc := pc fr + 1\<rparr>"
  let ?size = "unat (max_locals (code callee))"
  let ?ls = "memset_zero (replicate ?size None) ?size"
  have "int (unat num_params) \<le> stack_pointer ?fr + 1"
    "stack_pointer ?fr < int (length (operand_stack ?fr))" "unat num_params \<le> length ?ls"
    using assms(5-7) by simp_all
  from pop_arguments_in_order [OF this] obtain ls1 where
    run: "pop_arguments (unat num_params) ?fr ?ls =
            Inr (?fr\<lparr>stack_pointer := stack_pointer ?fr - int (unat num_params)\<rparr>, ls1)"
    and len: "length ls1 = length ?ls"
    and args: "\<forall>i < unat num_params.
        ls1 ! i = Some (operand_stack ?fr ! (nat (stack_pointer ?fr + 1) - unat num_params + i))"
    by blast
  have b2: "bytecode method (2 + pc fr) = Inr b2"
    using assms(2) by (simp add: add.commute)
  have "invoke_setup class method fr =
      Inr (callee, ls1, fr\<lparr>stack_pointer := stack_pointer fr - int (unat num_params), pc := pc fr + 1\<rparr>)"
    unfolding invoke_setup_def Let_def
    using run by (simp add: assms(1,3,4) b2 del: pop_arguments.simps)
  with len args show ?thesis
    by (intro exI [of _ ls1]) simp
qed

lemma uint_positive:
  assumes "1 \<le> unat (x :: 'a::len word)"
  shows "1 \<le> uint x"
proof -
  have "x \<noteq> 0"
    using assms by auto
  then have "uint x \<noteq> 0"
    by (simp add: uint_0_iff)
  moreover have "0 \<le> uint x"
    by simp
  ultimately show ?thesis
    by linarith
qed

lemma step_iload_n:
  "k \<le> 3 \<Longrightarrow> step class method (i_iload_0 + of_nat k) fr w
     = continue w (case_i_load_n OFFSET_ILOAD (i_iload_0 + of_nat k) fr)"
proof -
  assume "k \<le> 3"
  then consider "k = 0" | "k = 1" | "k = 2" | "k = 3"
    by linarith
  then show ?thesis
    by cases (simp_all add: step_def)
qed

lemma iload_n_index:
  "k \<le> 3 \<Longrightarrow> uint (i_iload_0 + of_nat k :: u1) - OFFSET_ILOAD = int k"
proof -
  assume "k \<le> 3"
  then consider "k = 0" | "k = 1" | "k = 2" | "k = 3"
    by linarith
  then show ?thesis
    by cases (simp_all add: OFFSET_ILOAD_def)
qed

lemma iload_n_not_invokestatic:
  "k \<le> 3 \<Longrightarrow> (i_iload_0 + of_nat k :: u1) \<noteq> i_invokestatic"
proof -
  assume "k \<le> 3"
  then consider "k = 0" | "k = 1" | "k = 2" | "k = 3"
    by linarith
  then show ?thesis
    by cases simp_all
qed

lemma step_ireturn:
  "step class method i_ireturn fr w
     = then_do (case_i_ireturn fr) (\<lambda>ret_val. Inr (Returned (Some ret_val) w))"
  by (simp add: step_def)

lemma load_and_return:
  assumes "code_t.code (code callee) = [i_iload_0 + of_nat k, i_ireturn]"
    and "code_length (code callee) = 2"
    and "1 \<le> unat (max_stack (code callee))"
    and "k \<le> 3" and "k < length ls" and "ls ! k = Some a"
  shows "execute_from (Suc (Suc n)) class callee (new_frame callee ls) w = Inr (Some a, w)"
proof -
  let ?ms = "unat (max_stack (code callee))"
  let ?fr0 = "new_frame callee ls"
  let ?fr1 = "\<lparr>operand_stack = (replicate ?ms 0)[0 := a], stack_pointer = 0, locals = ls, pc = 1\<rparr>"
  have f0: "bytecode callee (pc ?fr0) = Inr (i_iload_0 + of_nat k)"
    by (simp add: bytecode_def new_frame_def assms(1))
  have g: "get_local ?fr0 (int k) = Inr a"
    using assms(5,6) by (simp add: get_local_def new_frame_def)
  have q: "push ?fr0 a = Inr (?fr0\<lparr>operand_stack := (replicate ?ms 0)[0 := a], stack_pointer := 0\<rparr>)"
    using uint_positive [OF assms(3)] by (simp add: push_def new_frame_def)
  have "step class callee (i_iload_0 + of_nat k) ?fr0 w = Inr (Continue ?fr1 w)"
    using assms(4) by (simp add: step_iload_n continue_def case_i_load_n_def iload_n_index g q)
      (simp add: new_frame_def)
  then have one: "execute_step (Suc n) class callee ?fr0 w = Inr (Continue ?fr1 w)"
    using execute_step_switch [OF f0 iload_n_not_invokestatic [OF assms(4)]] by simp
  have f1: "bytecode callee (pc ?fr1) = Inr i_ireturn"
    by (simp add: bytecode_def assms(1))
  have p: "pop (?fr1\<lparr>pc := 2\<rparr>) = Inr (a, ?fr1\<lparr>pc := 2, stack_pointer := - 1\<rparr>)"
    using assms(3) uint_positive [OF assms(3)] by (simp add: pop_def)
  have "step class callee i_ireturn ?fr1 w = Inr (Returned (Some a) w)"
    using p by (simp add: step_ireturn case_i_ireturn_def)
  then have two: "execute_step n class callee ?fr1 w = Inr (Returned (Some a) w)"
    using execute_step_switch [OF f1] by simp
  have "execute_from (Suc n) class callee ?fr1 w = Inr (Some a, w)"
    using two by (simp add: assms(2) del: execute_step.simps)
  moreover have "pc ?fr0 < code_length (code callee)"
    by (simp add: new_frame_def assms(2))
  ultimately show ?thesis
    using one by (simp del: execute_step.simps)
qed

text \<open>
  Claim C5.  \<^verbatim>\<open>invokestatic\<close> of a callee with \<open>num_params\<close> parameters pops that many values
  and stores them in the callee's locals in the order they were pushed: local \<open>i\<close> is the
  value \<open>num_params - i\<close> deep in the caller's stack, so local 0 is the deepest of them and
  local \<open>num_params - 1\<close> the top.  Hence a callee whose code is \<^verbatim>\<open>iload_k; ireturn\<close> returns
  its argument \<open>k\<close> (counted from 0), which the caller finds pushed, with \<^verbatim>\<open>pc\<close> 3 further:
  two units of fuel are enough for the callee.
\<close>

theorem invokestatic_passes_arguments_in_order:
  assumes "bytecode method (pc fr) = Inr i_invokestatic"
    and "bytecode method (pc fr + 1) = Inr b1" and "bytecode method (pc fr + 2) = Inr b2"
    and "find_method_from_index (push_bit 8 (ucast b1) OR ucast b2) class = Inr (Some callee)"
    and "get_number_of_parameters callee = Inr num_params"
    and "unat num_params \<le> unat (max_locals (code callee))"
    and "int (unat num_params) \<le> stack_pointer fr + 1"
    and "stack_pointer fr < int (length (operand_stack fr))"
  shows "\<exists>ls. invoke_setup class method fr =
              Inr (callee, ls, fr\<lparr>stack_pointer := stack_pointer fr - int (unat num_params),
                                   pc := pc fr + 1\<rparr>)
           \<and> length ls = unat (max_locals (code callee))
           \<and> (\<forall>i < unat num_params.
                 ls ! i = Some (operand_stack fr ! (nat (stack_pointer fr + 1) - unat num_params + i)))
           \<and> (k < unat num_params \<and> k \<le> 3
                \<and> code_t.code (code callee) = [i_iload_0 + of_nat k, i_ireturn]
                \<and> code_length (code callee) = 2 \<and> 1 \<le> unat (max_stack (code callee)) \<longrightarrow>
               execute_step (Suc (Suc n)) class method fr w =
                 Inr (Continue
                   (fr\<lparr>operand_stack := (operand_stack fr)
                          [nat (stack_pointer fr - int (unat num_params) + 1) :=
                             operand_stack fr ! (nat (stack_pointer fr + 1) - unat num_params + k)],
                       stack_pointer := stack_pointer fr - int (unat num_params) + 1,
                       pc := pc fr + 3\<rparr>) w))"
proof -
  let ?np = "unat num_params"
  let ?fr1 = "fr\<lparr>stack_pointer := stack_pointer fr - int ?np, pc := pc fr + 1\<rparr>"
  from invoke_setup_in_order [OF assms(2-8)] obtain ls where
    prep: "invoke_setup class method fr = Inr (callee, ls, ?fr1)"
    and len: "length ls = unat (max_locals (code callee))"
    and args: "\<forall>i < ?np. ls ! i = Some (operand_stack fr ! (nat (stack_pointer fr + 1) - ?np + i))"
    by blast
  have "execute_step (Suc (Suc n)) class method fr w =
      Inr (Continue
        (fr\<lparr>operand_stack := (operand_stack fr)
               [nat (stack_pointer fr - int ?np + 1) :=
                  operand_stack fr ! (nat (stack_pointer fr + 1) - ?np + k)],
             stack_pointer := stack_pointer fr - int ?np + 1,
             pc := pc fr + 3\<rparr>) w)"
    if body: "k < ?np \<and> k \<le> 3 \<and> code_t.code (code callee) = [i_iload_0 + of_nat k, i_ireturn]
        \<and> code_length (code callee) = 2 \<and> 1 \<le> unat (max_stack (code callee))"
  proof -
    let ?a = "operand_stack fr ! (nat (stack_pointer fr + 1) - ?np + k)"
    have k: "k < length ls" "ls ! k = Some ?a"
      using body len args assms(6) by simp_all
    have callee: "execute_from (Suc (Suc n)) class callee (new_frame callee ls) w = Inr (Some ?a, w)"
      using body k by (intro load_and_return) simp_all
    have "1 \<le> unat num_params"
      using body by simp
    then have "1 \<le> uint num_params"
      by (rule uint_positive)
    then have "- 1 \<le> stack_pointer ?fr1" "stack_pointer ?fr1 + 1 < int (length (operand_stack ?fr1))"
      using assms(7,8) by simp_all
    from push_room [OF this, of ?a]
    have "invoke_result ?fr1 (Some ?a) =
        Inr (fr\<lparr>operand_stack := (operand_stack fr)[nat (stack_pointer fr - int ?np + 1) := ?a],
                stack_pointer := stack_pointer fr - int ?np + 1,
                pc := pc fr + 3\<rparr>)"
      by (simp add: invoke_result_def)
    then show ?thesis
      using assms(1) prep callee by (simp del: execute_from.simps)
  qed
  with prep len args show ?thesis
    by blast
qed

lemmas lookup_defs = class_of_method_def static_method_def find_method_from_index_def
  get_method_name_and_type_def get_constant_def constant_pool_size_def find_method_def
  strcmp_eq_def c_str_def get_number_of_parameters_def strchr_def params_loop.simps

theorem invokestatic_passes_arguments_in_order_witness:
  "invoke_setup (class_of_method (static_method ''second'' ''(II)I'' 1 2 [i_iload_1, i_ireturn]))
      (code_only 2 1 [i_invokestatic, 0, 1])
      \<lparr>operand_stack = [7, 9], stack_pointer = 1, locals = [Some 0], pc = 0\<rparr>
     = Inr (static_method ''second'' ''(II)I'' 1 2 [i_iload_1, i_ireturn], [Some 7, Some 9],
            \<lparr>operand_stack = [7, 9], stack_pointer = - 1, locals = [Some 0], pc = 1\<rparr>)
   \<and> execute_step (Suc (Suc 0))
      (class_of_method (static_method ''second'' ''(II)I'' 1 2 [i_iload_1, i_ireturn]))
      (code_only 2 1 [i_invokestatic, 0, 1])
      \<lparr>operand_stack = [7, 9], stack_pointer = 1, locals = [Some 0], pc = 0\<rparr> empty_world
     = Inr (Continue \<lparr>operand_stack = [9, 9], stack_pointer = 0, locals = [Some 0], pc = 3\<rparr>
              empty_world)"
proof -
  let ?F = "static_method ''second'' ''(II)I'' 1 2 [i_iload_1, i_ireturn]"
  let ?C = "class_of_method ?F"
  let ?M = "code_only 2 1 [i_invokestatic, 0, 1]"
  let ?fr = "\<lparr>operand_stack = [7, 9], stack_pointer = 1, locals = [Some 0], pc = 0\<rparr>"
  have h1: "bytecode ?M (pc ?fr) = Inr i_invokestatic"
    and h2: "bytecode ?M (pc ?fr + 1) = Inr 0" and h3: "bytecode ?M (pc ?fr + 2) = Inr 1"
    by (simp_all add: example_defs)
  have h4: "find_method_from_index (push_bit 8 (ucast (0 :: u1)) OR ucast (1 :: u1)) ?C = Inr (Some ?F)"
    by (simp add: lookup_defs)
  have h5: "get_number_of_parameters ?F = Inr 2"
    by (simp add: lookup_defs)
  have h6: "unat (2 :: u2) \<le> unat (max_locals (code ?F))"
    by (simp add: static_method_def)
  have h7: "int (unat (2 :: u2)) \<le> stack_pointer ?fr + 1"
    and h8: "stack_pointer ?fr < int (length (operand_stack ?fr))"
    by simp_all
  from invokestatic_passes_arguments_in_order [OF h1 h2 h3 h4 h5 h6 h7 h8, of 1 0 empty_world]
  obtain ls where
    a: "invoke_setup ?C ?M ?fr = Inr (?F, ls, ?fr\<lparr>stack_pointer := stack_pointer ?fr - int (unat (2 :: u2)),
                                                       pc := pc ?fr + 1\<rparr>)"
    and b: "length ls = unat (max_locals (code ?F))"
    and c: "\<forall>i < unat (2 :: u2). ls ! i =
              Some (operand_stack ?fr ! (nat (stack_pointer ?fr + 1) - unat (2 :: u2) + i))"
    and d: "1 < unat (2 :: u2) \<and> (1 :: nat) \<le> 3
              \<and> code_t.code (code ?F) = [i_iload_0 + of_nat 1, i_ireturn]
              \<and> code_length (code ?F) = 2 \<and> 1 \<le> unat (max_stack (code ?F)) \<longrightarrow>
            execute_step (Suc (Suc 0)) ?C ?M ?fr empty_world =
              Inr (Continue
                (?fr\<lparr>operand_stack := (operand_stack ?fr)
                        [nat (stack_pointer ?fr - int (unat (2 :: u2)) + 1) :=
                           operand_stack ?fr ! (nat (stack_pointer ?fr + 1) - unat (2 :: u2) + 1)],
                      stack_pointer := stack_pointer ?fr - int (unat (2 :: u2)) + 1,
                      pc := pc ?fr + 3\<rparr>) empty_world)"
    by blast
  have "length ls = 2"
    using b by (simp add: static_method_def)
  moreover have "ls ! 0 = Some 7" "ls ! 1 = Some 9"
    using c [rule_format, of 0] c [rule_format, of 1] by simp_all
  ultimately have ls: "ls = [Some 7, Some 9]"
    by (cases ls; cases "tl ls") auto
  have "execute_step (Suc (Suc 0)) ?C ?M ?fr empty_world =
      Inr (Continue \<lparr>operand_stack = [9, 9], stack_pointer = 0, locals = [Some 0], pc = 3\<rparr> empty_world)"
    using d by (simp add: static_method_def del: execute_step.simps)
  with a ls show ?thesis
    by simp
qed

section \<open>The locals of a callee\<close>

text \<open>
  \<^verbatim>\<open>main\<close> zeroes the locals of the entry method with \<^verbatim>\<open>sizeof(locals)\<close>, four bytes for each
  local: all of them are 0.
\<close>

lemma memset_zero_fresh:
  "i < n \<Longrightarrow> memset_zero (replicate n None) m ! i = (if 4 * (i + 1) \<le> m then Some 0 else None)"
  by (simp add: memset_zero_def nth_enumerate_eq)

lemma memset_zero_sizeof:
  "memset_zero (replicate n None) (4 * n) = replicate n (Some 0)"
  by (rule nth_equalityI) (simp_all add: memset_zero_fresh)

lemma main_locals_zeroed:
  "find_method MAIN_METHOD MAIN_DESCRIPTOR class = Some main_method \<Longrightarrow>
   jvm_main n class =
     then_do (execute n main_method (replicate (unat (max_locals (code main_method))) (Some 0)) class
                \<lparr>heap = heap_init, printed = []\<rparr>)
       (\<lambda>(result, w). case result of Some v \<Rightarrow> Inl AssertionFailed | None \<Rightarrow> Inr (printed w))"
  by (simp add: jvm_main_def memset_zero_sizeof)

text \<open>
  The locals that \<^verbatim>\<open>invokestatic\<close> hands to the callee, beyond the parameters: local \<open>i\<close> is 0
  when its four bytes are among the first \<^verbatim>\<open>max_locals\<close> bytes of the array, and has no
  determinate value otherwise.
\<close>

lemma invoke_setup_locals:
  assumes "bytecode method (pc fr + 1) = Inr b1" and "bytecode method (pc fr + 2) = Inr b2"
    and "find_method_from_index (push_bit 8 (ucast b1) OR ucast b2) class = Inr (Some callee)"
    and "get_number_of_parameters callee = Inr num_params"
    and "unat num_params \<le> unat (max_locals (code callee))"
    and "int (unat num_params) \<le> stack_pointer fr + 1"
    and "stack_pointer fr < int (length (operand_stack fr))"
  shows "\<exists>ls fr1. invoke_setup class method fr = Inr (callee, ls, fr1)
           \<and> length ls = unat (max_locals (code callee))
           \<and> (\<forall>i. unat num_params \<le> i \<longrightarrow> i < unat (max_locals (code callee)) \<longrightarrow>
                 ls ! i = (if 4 * (i + 1) \<le> unat (max_locals (code callee)) then Some 0 else None))"
proof -
  let ?fr = "fr\<lparr>pc := pc fr + 1\<rparr>"
  let ?size = "unat (max_locals (code callee))"
  let ?ls = "memset_zero (replicate ?size None) ?size"
  have "int (unat num_params) \<le> stack_pointer ?fr + 1"
    "stack_pointer ?fr < int (length (operand_stack ?fr))" "unat num_params \<le> length ?ls"
    using assms(5-7) by simp_all
  from pop_arguments_in_order [OF this] obtain ls1 where
    run: "pop_arguments (unat num_params) ?fr ?ls =
            Inr (?fr\<lparr>stack_pointer := stack_pointer ?fr - int (unat num_params)\<rparr>, ls1)"
    and len: "length ls1 = length ?ls"
    and rest: "\<forall>i. unat num_params \<le> i \<longrightarrow> i < length ?ls \<longrightarrow> ls1 ! i = ?ls ! i"
    by blast
  have b2: "bytecode method (2 + pc fr) = Inr b2"
    using assms(2) by (simp add: add.commute)
  have "invoke_setup class method fr =
      Inr (callee, ls1, fr\<lparr>stack_pointer := stack_pointer fr - int (unat num_params), pc := pc fr + 1\<rparr>)"
    unfolding invoke_setup_def Let_def
    using run by (simp add: assms(1,3,4) b2 del: pop_arguments.simps)
  moreover have "ls1 ! i = (if 4 * (i + 1) \<le> ?size then Some 0 else None)"
    if "unat num_params \<le> i" "i < ?size" for i
    using rest that by (simp add: memset_zero_fresh)
  ultimately show ?thesis
    using len by auto
qed

text \<open>
  Claim C1.  On entry to the callee of an \<^verbatim>\<open>invokestatic\<close>, every local that is not a
  parameter should be 0.  The source calls \<^verbatim>\<open>memset(method_locals, 0, max_locals)\<close>: the
  third argument counts bytes, so the call zeroes \<^verbatim>\<open>max_locals\<close> bytes and not \<^verbatim>\<open>max_locals\<close>
  elements of four bytes each.  For a callee \<^verbatim>\<open>f(I)I\<close> with two locals, local 1 is left as
  the array was allocated, with no determinate value, and a callee that reads it
  (\<^verbatim>\<open>iload_1\<close>) reads that.  Of twelve locals, three are zeroed.
\<close>

theorem callee_locals_beyond_memset:
  "invoke_setup (class_of_method (static_method ''f'' ''(I)I'' 1 2 [i_iload_1, i_ireturn]))
      (code_only 2 1 [i_invokestatic, 0, 1])
      \<lparr>operand_stack = [7, 0], stack_pointer = 0, locals = [Some 0], pc = 0\<rparr>
     = Inr (static_method ''f'' ''(I)I'' 1 2 [i_iload_1, i_ireturn], [Some 7, None],
            \<lparr>operand_stack = [7, 0], stack_pointer = - 1, locals = [Some 0], pc = 1\<rparr>)
   \<and> execute_step 2 (class_of_method (static_method ''f'' ''(I)I'' 1 2 [i_iload_1, i_ireturn]))
      (code_only 2 1 [i_invokestatic, 0, 1])
      \<lparr>operand_stack = [7, 0], stack_pointer = 0, locals = [Some 0], pc = 0\<rparr> empty_world
     = Inl IndeterminateValue
   \<and> memset_zero (replicate 12 None) 12
     = [Some 0, Some 0, Some 0, None, None, None, None, None, None, None, None, None]"
  by code_simp

section \<open>Whole programs\<close>

text \<open>
  Programs run from \<^verbatim>\<open>main\<close>: one that prints 42; one that prints 7 + 3; one that branches
  on 0 with \<^verbatim>\<open>ifeq\<close> and prints 1; one that prints the factorial of 5, computed by a recursive
  static method; one that stores 10, 20, 30 in an array of three elements and prints them;
  one that prints the length of an array of seven elements.
\<close>

lemma hello_integer:
  "jvm_main 10 \<lparr>constant_pool = [],
      methods = [static_method ''main'' ''([Ljava/lang/String;)V'' 2 1
                   [i_bipush, 42, i_invokevirtual, 0, 0, i_return]]\<rparr> = Inr [42]"
  by code_simp

lemma seven_plus_three:
  "jvm_main 10 \<lparr>constant_pool = [],
      methods = [static_method ''main'' ''([Ljava/lang/String;)V'' 2 1
                   [i_bipush, 7, i_iconst_3, i_iadd, i_invokevirtual, 0, 0, i_return]]\<rparr> = Inr [10]"
  by code_simp

lemma factorial_of_five:
  "jvm_main 50
     \<lparr>constant_pool = [CONSTANT_Methodref 0 2, CONSTANT_NameAndType 3 4,
                        CONSTANT_Utf8 ''fact'', CONSTANT_Utf8 ''(I)I''],
      methods = [static_method ''main'' ''([Ljava/lang/String;)V'' 2 1
                   [i_bipush, 5, i_invokestatic, 0, 1, i_invokevirtual, 0, 0, i_return],
                 static_method ''fact'' ''(I)I'' 3 1
                   [i_iload_0, i_ifne, 0, 5, i_iconst_1, i_ireturn,
                    i_iload_0, i_iload_0, i_iconst_1, i_isub, i_invokestatic, 0, 1,
                    i_imul, i_ireturn]]\<rparr> = Inr [120]"
  by code_simp

lemma branch_taken:
  "jvm_main 10 \<lparr>constant_pool = [],
      methods = [static_method ''main'' ''([Ljava/lang/String;)V'' 2 1
                   [i_iconst_0, i_ifeq, 0, 8,
                    i_iconst_2, i_invokevirtual, 0, 0, i_return,
                    i_iconst_1, i_invokevirtual, 0, 0, i_return]]\<rparr> = Inr [1]"
  by code_simp

lemma array_round_trip:
  "jvm_main 40 \<lparr>constant_pool = [],
      methods = [static_method ''main'' ''([Ljava/lang/String;)V'' 3 2
                   [i_iconst_3, i_newarray, 10, i_astore_1,
                    i_aload_1, i_iconst_0, i_bipush, 10, i_iastore,
                    i_aload_1, i_iconst_1, i_bipush, 20, i_iastore,
                    i_aload_1, i_iconst_2, i_bipush, 30, i_iastore,
                    i_aload_1, i_iconst_0, i_iaload, i_invokevirtual, 0, 0,
                    i_aload_1, i_iconst_1, i_iaload, i_invokevirtual, 0, 0,
                    i_aload_1, i_iconst_2, i_iaload, i_invokevirtual, 0, 0,
                    i_return]]\<rparr> = Inr [10, 20, 30]"
  by code_simp

lemma array_length:
  "jvm_main 10 \<lparr>constant_pool = [],
      methods = [static_method ''main'' ''([Ljava/lang/String;)V'' 2 1
                   [i_bipush, 7, i_newarray, 10, i_arraylength, i_invokevirtual, 0, 0,
                    i_return]]\<rparr> = Inr [7]"
  by code_simp

end
